theory Spec2Isabelle
  imports Main "HOL-Library.Sublist" "HOL-Library.Multiset"
begin

section \<open>Data model\<close>

text \<open>
  A shallow embedding of \<^verbatim>\<open>app.py\<close>, the project tracker: one SQLite table
  \<^verbatim>\<open>projects\<close>, a Google Sheets mirror and a login check.

  A text that the program only stores, compares and concatenates (a field of a project, a
  message, the text of an exception) is a \<open>string\<close>: the bytes of its UTF-8 form, which
  keep equality and concatenation. The two functions that look at characters,
  \<^verbatim>\<open>validate_whatsapp\<close> and \<^verbatim>\<open>check_password\<close>, take a Python \<^verbatim>\<open>str\<close> as the list
  of its code points (\<open>pystr\<close>).

  SQLite's \<^verbatim>\<open>CURRENT_TIMESTAMP\<close> has a resolution of one second; a timestamp is the
  number of seconds since some epoch, a \<open>nat\<close>, and the order of the timestamp texts is
  the order of these numbers.
\<close>

text \<open>The dictionary \<^verbatim>\<open>project_data\<close> handed to the write operations: seven text entries.\<close>

record project_data =
  project_name :: string
  one_liner :: string
  description :: string
  ai_usage :: string
  lead_name :: string
  whatsapp_contact :: string
  status :: string

text \<open>
  A row of the table \<^verbatim>\<open>projects\<close> created by \<^verbatim>\<open>init_db\<close>: the seven text columns,
  the \<^verbatim>\<open>AUTOINCREMENT\<close> key \<^verbatim>\<open>id\<close> (here \<open>row_id\<close>) and the two timestamps.
  No column carries a \<^verbatim>\<open>CHECK\<close> constraint; \<^verbatim>\<open>project_name\<close> is \<^verbatim>\<open>UNIQUE\<close>.
\<close>

record row = project_data +
  row_id :: nat
  date_added :: nat
  last_updated :: nat

text \<open>
  A write request that the spreadsheet accepted: \<^verbatim>\<open>values().append\<close> with the row of
  values, \<^verbatim>\<open>values().update\<close> and \<^verbatim>\<open>values().clear\<close> with the number of the sheet row.
\<close>

datatype sheet_call =
  Append "string list"
| Update nat "string list"
| Clear nat

text \<open>
  The surroundings of one operation: the reading of SQLite's clock, the text of
  \<^verbatim>\<open>datetime.now().strftime(...)\<close>, whether the interpreter has by now finalized the
  connections that earlier calls left open (\<open>collected\<close>), and what the spreadsheet
  service answers. A request returns or raises: \<open>Some e\<close> (for \<^verbatim>\<open>values().get\<close>,
  \<open>Inl e\<close>) is a request that raises an exception whose text is \<open>e\<close>;
  \<open>build_service\<close> is the construction of the credentials and the service object in
  \<^verbatim>\<open>init_google_sheets\<close>. \<open>Inr rows\<close> is the list under \<^verbatim>\<open>values\<close> of the answer to
  \<^verbatim>\<open>values().get\<close>, empty when the key is missing.
\<close>

record env =
  current_timestamp :: nat
  datetime_now :: string
  collected :: bool
  build_service :: "string option"
  values_get :: "string + string list list"
  values_append :: "string option"
  values_update :: "string option"
  values_clear :: "string option"

text \<open>
  The state: the rows of the table in the order of their keys, the largest key handed out
  so far (\<^verbatim>\<open>sqlite_sequence\<close>), whether a connection that was left open holds the write
  lock of the database file (\<open>write_lock\<close>), and the write requests the spreadsheet has
  accepted.
\<close>

record state =
  projects :: "row list"
  sqlite_sequence :: nat
  write_lock :: bool
  sheet :: "sheet_call list"

datatype exn = IntegrityError | OperationalError | IndexError | Exception string

fun str :: "exn \<Rightarrow> string" where
  "str IntegrityError = ''UNIQUE constraint failed: projects.project_name''"
| "str OperationalError = ''database is locked''"
| "str IndexError = ''list index out of range''"
| "str (Exception e) = e"

text \<open>
  The keys of the dictionary \<^verbatim>\<open>PROJECT_STATUSES\<close>, in its order; the colours and
  descriptions play no part here. The select boxes of the two forms offer these keys.
\<close>

definition PROJECT_STATUSES :: "string list" where
  "PROJECT_STATUSES = [''Idea'', ''MVP'', ''Launch'']"

definition names :: "state \<Rightarrow> string list" where
  "names st = map project_name (projects st)"

section \<open>Google Sheets mirror\<close>

text \<open>
  \<^verbatim>\<open>init_google_sheets\<close>: the service object, or \<^verbatim>\<open>None\<close> when building it raised
  (the exception is shown with \<^verbatim>\<open>st.error\<close> and swallowed).
\<close>

definition init_google_sheets :: "env \<Rightarrow> bool" where
  "init_google_sheets e = (build_service e = None)"

text \<open>
  The loop of \<^verbatim>\<open>find_row_in_sheets\<close> over \<^verbatim>\<open>enumerate(rows)\<close>: \<^verbatim>\<open>row[0]\<close> raises
  \<^verbatim>\<open>IndexError\<close> on an empty row.
\<close>

fun scan_rows :: "nat \<Rightarrow> string list list \<Rightarrow> string \<Rightarrow> exn + nat option" where
  "scan_rows idx [] n = Inr None"
| "scan_rows idx ([] # rows) n = Inl IndexError"
| "scan_rows idx ((c # cs) # rows) n =
     (if c = n then Inr (Some (idx + 2)) else scan_rows (Suc idx) rows n)"

text \<open>The body of the \<^verbatim>\<open>try\<close> block of \<^verbatim>\<open>find_row_in_sheets\<close>.\<close>

definition find_row_body :: "env \<Rightarrow> string \<Rightarrow> exn + nat option" where
  "find_row_body e n =
     (case values_get e of
        Inl err \<Rightarrow> Inl (Exception err)
      | Inr rows \<Rightarrow> scan_rows 0 rows n)"

text \<open>\<^verbatim>\<open>find_row_in_sheets\<close>: every exception is printed and turned into \<^verbatim>\<open>None\<close>.\<close>

definition find_row_in_sheets :: "env \<Rightarrow> string \<Rightarrow> nat option" where
  "find_row_in_sheets e n =
     (case find_row_body e n of Inl x \<Rightarrow> None | Inr r \<Rightarrow> r)"

text \<open>A row of the sheet that the scan passes: it is empty or its first cell is not the name.\<close>

fun first_cell_differs :: "string \<Rightarrow> string list \<Rightarrow> bool" where
  "first_cell_differs n [] = True"
| "first_cell_differs n (c # cs) = (c \<noteq> n)"

definition sheet_values :: "env \<Rightarrow> 'a project_data_scheme \<Rightarrow> bool \<Rightarrow> string list" where
  "sheet_values e p is_update =
     [project_name p, one_liner p, description p, ai_usage p, lead_name p,
      whatsapp_contact p, status p, datetime_now e,
      if is_update then ''Updated'' else ''New Entry'']"

text \<open>
  \<^verbatim>\<open>sync_to_sheets\<close>. The body of its \<^verbatim>\<open>try\<close> block returns a result and the new log
  of accepted requests, or raises.
\<close>

definition sync_body ::
  "env \<Rightarrow> sheet_call list \<Rightarrow> 'a project_data_scheme \<Rightarrow> bool
     \<Rightarrow> exn + ((bool \<times> string) \<times> sheet_call list)" where
  "sync_body e log p is_update =
     (if \<not> init_google_sheets e then Inr ((False, ''Failed to connect to Google Sheets''), log)
      else if is_update then
        (case find_row_in_sheets e (project_name p) of
           Some row_number \<Rightarrow>
             (case values_update e of
                Some err \<Rightarrow> Inl (Exception err)
              | None \<Rightarrow>
                  Inr ((True, ''Successfully updated in Google Sheets''),
                       log @ [Update row_number (sheet_values e p True)]))
         | None \<Rightarrow> Inr ((False, ''Project not found in Google Sheets''), log))
      else
        (case values_append e of
           Some err \<Rightarrow> Inl (Exception err)
         | None \<Rightarrow>
             Inr ((True, ''Successfully added to Google Sheets''),
                  log @ [Append (sheet_values e p False)])))"

definition sync_to_sheets ::
  "env \<Rightarrow> sheet_call list \<Rightarrow> 'a project_data_scheme \<Rightarrow> bool
     \<Rightarrow> (bool \<times> string) \<times> sheet_call list" where
  "sync_to_sheets e log p is_update =
     (case sync_body e log p is_update of
        Inl x \<Rightarrow> ((False, ''Error syncing to Google Sheets: '' @ str x), log)
      | Inr r \<Rightarrow> r)"

section \<open>Local store\<close>

text \<open>
  Every operation opens a connection of its own, and closes it only at the end of its
  \<^verbatim>\<open>try\<close> block. A statement that writes (\<^verbatim>\<open>INSERT\<close>, \<^verbatim>\<open>UPDATE\<close>, \<^verbatim>\<open>DELETE\<close>)
  opens a transaction and takes the write lock of the file before it looks at any row.
  When the statement raises, \<^verbatim>\<open>conn.commit()\<close> and \<^verbatim>\<open>conn.close()\<close> are skipped: the
  connection stays open until the interpreter finalizes it, and with it the transaction
  and a lock it holds. While another connection holds the write lock, a writing statement
  waits for the timeout of the connection and raises \<^verbatim>\<open>sqlite3.OperationalError\<close>
  (\<^verbatim>\<open>database is locked\<close>); reading goes on.
\<close>

definition locked :: "env \<Rightarrow> state \<Rightarrow> bool" where
  "locked e st = (write_lock st \<and> \<not> collected e)"

text \<open>
  The \<^verbatim>\<open>INSERT\<close> of \<^verbatim>\<open>add_project\<close> and of \<^verbatim>\<open>init_db\<close>. Under the lock of another
  connection it raises \<^verbatim>\<open>OperationalError\<close>. Otherwise it takes the lock; the
  \<^verbatim>\<open>UNIQUE\<close> constraint on \<^verbatim>\<open>project_name\<close> raises \<^verbatim>\<open>sqlite3.IntegrityError\<close>, which
  undoes the statement and leaves the transaction of the connection open, with the lock.
  Otherwise the row gets the next key and both timestamps default to
  \<^verbatim>\<open>CURRENT_TIMESTAMP\<close>. An exception comes with the state it leaves.
\<close>

definition new_row :: "nat \<Rightarrow> nat \<Rightarrow> 'a project_data_scheme \<Rightarrow> row" where
  "new_row k now p =
     \<lparr>project_name = project_name p, one_liner = one_liner p,
      description = description p, ai_usage = ai_usage p, lead_name = lead_name p,
      whatsapp_contact = whatsapp_contact p, status = status p,
      row_id = k, date_added = now, last_updated = now\<rparr>"

definition insert_project ::
  "env \<Rightarrow> state \<Rightarrow> 'a project_data_scheme \<Rightarrow> exn \<times> state + state" where
  "insert_project e st p =
     (if locked e st then Inl (OperationalError, st)
      else if project_name p \<in> set (names st)
      then Inl (IntegrityError, st\<lparr>write_lock := True\<rparr>)
      else Inr (st\<lparr>projects := projects st @
                        [new_row (Suc (sqlite_sequence st)) (current_timestamp e) p],
                    sqlite_sequence := Suc (sqlite_sequence st),
                    write_lock := False\<rparr>))"

text \<open>The \<^verbatim>\<open>UPDATE ... WHERE project_name = ?\<close> of \<^verbatim>\<open>update_project\<close>, committed.\<close>

definition set_fields :: "nat \<Rightarrow> 'a project_data_scheme \<Rightarrow> row \<Rightarrow> row" where
  "set_fields now p r =
     (if project_name r = project_name p
      then r\<lparr>one_liner := one_liner p, description := description p,
             ai_usage := ai_usage p, lead_name := lead_name p,
             whatsapp_contact := whatsapp_contact p, status := status p,
             last_updated := now\<rparr>
      else r)"

definition update_rows ::
  "env \<Rightarrow> state \<Rightarrow> 'a project_data_scheme \<Rightarrow> exn \<times> state + state" where
  "update_rows e st p =
     (if locked e st then Inl (OperationalError, st)
      else Inr (st\<lparr>projects := map (set_fields (current_timestamp e) p) (projects st),
                    write_lock := False\<rparr>))"

text \<open>
  The \<^verbatim>\<open>DELETE FROM projects WHERE project_name = ?\<close> of \<^verbatim>\<open>delete_project\<close>,
  committed.
\<close>

definition delete_rows :: "env \<Rightarrow> state \<Rightarrow> string \<Rightarrow> exn \<times> state + state" where
  "delete_rows e st n =
     (if locked e st then Inl (OperationalError, st)
      else Inr (st\<lparr>projects := filter (\<lambda>r. project_name r \<noteq> n) (projects st),
                    write_lock := False\<rparr>))"

text \<open>
  \<^verbatim>\<open>get_all_projects\<close>: \<^verbatim>\<open>SELECT * FROM projects ORDER BY date_added DESC\<close>. SQL
  leaves the order of rows with equal \<^verbatim>\<open>date_added\<close> open; here they keep the order
  of their keys.
\<close>

definition get_all_projects :: "state \<Rightarrow> row list" where
  "get_all_projects st = sort_key (\<lambda>r. - int (date_added r)) (projects st)"

section \<open>Operations\<close>

text \<open>\<^verbatim>\<open>add_project\<close>: the body of the \<^verbatim>\<open>try\<close> block, then the two handlers.\<close>

definition add_project_body ::
  "env \<Rightarrow> state \<Rightarrow> 'a project_data_scheme \<Rightarrow> exn \<times> state + (bool \<times> string) \<times> state" where
  "add_project_body e st p =
     (case insert_project e st p of
        Inl x \<Rightarrow> Inl x
      | Inr st1 \<Rightarrow>
          (case sync_to_sheets e (sheet st1) p False of
             ((sheets_success, sheets_message), log) \<Rightarrow>
               if \<not> sheets_success
               then Inr ((True, ''Project registered in database, but '' @ sheets_message),
                         st1\<lparr>sheet := log\<rparr>)
               else Inr ((True, ''Project successfully registered and synced to Google Sheets!''),
                         st1\<lparr>sheet := log\<rparr>)))"

definition add_project ::
  "env \<Rightarrow> state \<Rightarrow> 'a project_data_scheme \<Rightarrow> (bool \<times> string) \<times> state" where
  "add_project e st p =
     (case add_project_body e st p of
        Inl (IntegrityError, st') \<Rightarrow> ((False, ''Project name already exists!''), st')
      | Inl (x, st') \<Rightarrow> ((False, ''Error: '' @ str x), st')
      | Inr r \<Rightarrow> r)"

text \<open>\<^verbatim>\<open>update_project\<close>.\<close>

definition update_project_body ::
  "env \<Rightarrow> state \<Rightarrow> 'a project_data_scheme \<Rightarrow> exn \<times> state + (bool \<times> string) \<times> state" where
  "update_project_body e st p =
     (case update_rows e st p of
        Inl x \<Rightarrow> Inl x
      | Inr st1 \<Rightarrow>
          (case sync_to_sheets e (sheet st1) p True of
             ((sheets_success, sheets_message), log) \<Rightarrow>
               if \<not> sheets_success
               then Inr ((True, ''Project updated in database, but '' @ sheets_message),
                         st1\<lparr>sheet := log\<rparr>)
               else Inr ((True, ''Project successfully updated and synced to Google Sheets!''),
                         st1\<lparr>sheet := log\<rparr>)))"

definition update_project ::
  "env \<Rightarrow> state \<Rightarrow> 'a project_data_scheme \<Rightarrow> (bool \<times> string) \<times> state" where
  "update_project e st p =
     (case update_project_body e st p of
        Inl (x, st') \<Rightarrow> ((False, ''Error: '' @ str x), st')
      | Inr r \<Rightarrow> r)"

text \<open>
  \<^verbatim>\<open>delete_project\<close>. The \<^verbatim>\<open>DELETE\<close> is committed before the spreadsheet is
  touched, so an exception of the spreadsheet part leaves the store after the delete.
\<close>

definition delete_project_body ::
  "env \<Rightarrow> state \<Rightarrow> string \<Rightarrow> exn \<times> state + (bool \<times> string) \<times> state" where
  "delete_project_body e st n =
     (case delete_rows e st n of
        Inl x \<Rightarrow> Inl x
      | Inr st1 \<Rightarrow>
          if \<not> init_google_sheets e
          then Inr ((False,
                 ''Project deleted from database but failed to connect to Google Sheets''), st1)
          else
            (case find_row_in_sheets e n of
               Some row_number \<Rightarrow>
                 (case values_clear e of
                    Some err \<Rightarrow> Inl (Exception err, st1)
                  | None \<Rightarrow>
                      Inr ((True, ''Project successfully deleted from database and Google Sheets''),
                           st1\<lparr>sheet := sheet st1 @ [Clear row_number]\<rparr>))
             | None \<Rightarrow> Inr ((True, ''Project deleted from database''), st1)))"

definition delete_project :: "env \<Rightarrow> state \<Rightarrow> string \<Rightarrow> (bool \<times> string) \<times> state" where
  "delete_project e st n =
     (case delete_project_body e st n of
        Inl (x, st') \<Rightarrow> ((False, ''Error deleting project: '' @ str x), st')
      | Inr r \<Rightarrow> r)"

text \<open>
  \<^verbatim>\<open>init_db\<close>: \<^verbatim>\<open>CREATE TABLE IF NOT EXISTS\<close> finds the table and writes nothing; an
  empty table gets the sample row. \<^verbatim>\<open>init_db\<close> has no handler: the result is the
  exception that leaves it, if any, and the state.
\<close>

definition sample_project :: project_data where
  "sample_project =
     \<lparr>project_name = ''Sample Project'', one_liner = ''This is a sample project'',
      description = ''This is a sample description'',
      ai_usage = ''This project uses AI for demonstration'', lead_name = ''Admin'',
      whatsapp_contact = ''+1234567890'', status = ''Idea''\<rparr>"

definition init_db :: "env \<Rightarrow> state \<Rightarrow> exn option \<times> state" where
  "init_db e st =
     (if length (projects st) = 0
      then (case insert_project e st sample_project of
              Inl (x, st') \<Rightarrow> (Some x, st')
            | Inr st' \<Rightarrow> (None, st'))
      else (None, st))"

section \<open>Invariant of the table\<close>

text \<open>
  Names are unique, every status is a key of \<^verbatim>\<open>PROJECT_STATUSES\<close>, and no row was
  updated before it was added.
\<close>

definition status_listed :: "row \<Rightarrow> bool" where
  "status_listed r = (status r \<in> set PROJECT_STATUSES)"

definition stamps_ordered :: "row \<Rightarrow> bool" where
  "stamps_ordered r = (date_added r \<le> last_updated r)"

definition invariant :: "state \<Rightarrow> bool" where
  "invariant st =
     (distinct (names st) \<and> list_all status_listed (projects st)
      \<and> list_all stamps_ordered (projects st))"

section \<open>Python texts and the Unicode database\<close>

text \<open>
  A Python \<^verbatim>\<open>str\<close> is the list of its code points. \<open>ascii\<close> writes one from a
  literal.
\<close>

type_synonym pystr = "nat list"

definition ascii :: "string \<Rightarrow> pystr" where
  "ascii s = map of_char s"

text \<open>
  What \<^verbatim>\<open>str.lower\<close> and the pattern \<^verbatim>\<open>\d\<close> read from the Unicode database of the
  interpreter: the full lower-case mapping of a code point, the properties Cased and
  Case_Ignorable, and the decimal digits (category Nd). The database is the
  interpreter's, not the program's: the functions below take it as a parameter, and the
  theorems about them hold for every database.
\<close>

record unicode_db =
  to_lower_full :: "nat \<Rightarrow> nat list"
  is_cased :: "nat \<Rightarrow> bool"
  is_case_ignorable :: "nat \<Rightarrow> bool"
  is_decimal :: "nat \<Rightarrow> bool"

text \<open>
  \<^verbatim>\<open>str.lower\<close>. Every code point is replaced by its full lower-case mapping, but the
  capital sigma U+03A3: it becomes the final sigma U+03C2 when a cased character comes
  before it and none after it, case-ignorable characters skipped, and the small sigma
  U+03C3 otherwise. \<open>before\<close> holds the code points already passed, the nearest first.
\<close>

definition final_sigma :: "unicode_db \<Rightarrow> pystr \<Rightarrow> pystr \<Rightarrow> bool" where
  "final_sigma db before after =
     (case dropWhile (is_case_ignorable db) before of
        [] \<Rightarrow> False
      | c # cs \<Rightarrow>
          is_cased db c \<and>
          (case dropWhile (is_case_ignorable db) after of
             [] \<Rightarrow> True
           | d # ds \<Rightarrow> \<not> is_cased db d))"

fun lower_from :: "unicode_db \<Rightarrow> pystr \<Rightarrow> pystr \<Rightarrow> pystr" where
  "lower_from db before [] = []"
| "lower_from db before (c # after) =
     (if c = 0x3A3 then [if final_sigma db before after then 0x3C2 else 0x3C3]
      else to_lower_full db c) @ lower_from db (c # before) after"

definition lower :: "unicode_db \<Rightarrow> pystr \<Rightarrow> pystr" where
  "lower db s = lower_from db [] s"

text \<open>
  An excerpt of the Unicode database, version 14.0 (the one of Python 3.11): the decimal
  digits of all scripts, each block of ten given by its zero, and the casing of the code
  points U+0000 to U+00FF and of the Greek letters U+0391 to U+03C9. On other code points
  the casing entries of the excerpt say "no case", which is not the database; the examples
  stay inside the excerpt.
\<close>

definition decimal_zeros :: "nat list" where
  "decimal_zeros =
     [0x30, 0x660, 0x6F0, 0x7C0, 0x966, 0x9E6, 0xA66, 0xAE6, 0xB66, 0xBE6, 0xC66, 0xCE6,
      0xD66, 0xDE6, 0xE50, 0xED0, 0xF20, 0x1040, 0x1090, 0x17E0, 0x1810, 0x1946, 0x19D0,
      0x1A80, 0x1A90, 0x1B50, 0x1BB0, 0x1C40, 0x1C50, 0xA620, 0xA8D0, 0xA900, 0xA9D0,
      0xA9F0, 0xAA50, 0xABF0, 0xFF10, 0x104A0, 0x10D30, 0x11066, 0x110F0, 0x11136, 0x111D0,
      0x112F0, 0x11450, 0x114D0, 0x11650, 0x116C0, 0x11730, 0x118E0, 0x11950, 0x11C50,
      0x11D50, 0x11DA0, 0x16A60, 0x16AC0, 0x16B50, 0x1D7CE, 0x1D7D8, 0x1D7E2, 0x1D7EC,
      0x1D7F6, 0x1E140, 0x1E2F0, 0x1E950, 0x1FBF0]"

definition in_range :: "nat \<Rightarrow> nat \<Rightarrow> nat \<Rightarrow> bool" where
  "in_range lo hi c = (lo \<le> c \<and> c \<le> hi)"

definition excerpt_upper :: "nat \<Rightarrow> bool" where
  "excerpt_upper c =
     (in_range 0x41 0x5A c \<or> (in_range 0xC0 0xDE c \<and> c \<noteq> 0xD7)
      \<or> (in_range 0x391 0x3AB c \<and> c \<noteq> 0x3A2))"

definition excerpt_cased :: "nat \<Rightarrow> bool" where
  "excerpt_cased c =
     (in_range 0x41 0x5A c \<or> in_range 0x61 0x7A c \<or> c = 0xAA \<or> c = 0xB5 \<or> c = 0xBA
      \<or> in_range 0xC0 0xD6 c \<or> in_range 0xD8 0xF6 c \<or> in_range 0xF8 0xFF c
      \<or> in_range 0x391 0x3A1 c \<or> in_range 0x3A3 0x3C9 c)"

definition excerpt_case_ignorable :: "nat \<Rightarrow> bool" where
  "excerpt_case_ignorable c =
     (c \<in> set [0x27, 0x2E, 0x3A, 0x5E, 0x60, 0xA8, 0xAD, 0xAF, 0xB4, 0xB7, 0xB8])"

definition excerpt :: unicode_db where
  "excerpt =
     \<lparr>to_lower_full = (\<lambda>c. if excerpt_upper c then [c + 32] else [c]),
      is_cased = excerpt_cased,
      is_case_ignorable = excerpt_case_ignorable,
      is_decimal = (\<lambda>c. list_ex (\<lambda>z. z \<le> c \<and> c < z + 10) decimal_zeros)\<rparr>"

section \<open>Validation\<close>

text \<open>
  \<^verbatim>\<open>validate_whatsapp\<close> is \<^verbatim>\<open>bool(re.match(r'^\+\d{1,3}\d{10}$', number))\<close>. The
  pattern is a sequence of items; \<^verbatim>\<open>re.match\<close> looks for some way to match all of
  them from the start of the text, backtracking over the bounded repetitions. Without
  \<^verbatim>\<open>re.MULTILINE\<close>, \<^verbatim>\<open>^\<close> holds at the start of the text only, and \<^verbatim>\<open>$\<close> holds at
  the end of the text and just before a line feed that ends the text. On a \<^verbatim>\<open>str\<close>,
  \<^verbatim>\<open>\d\<close> takes every decimal digit of the Unicode database.
\<close>

datatype re_item =
  Bol
| Eol
| Lit nat
| Digits nat nat

definition line_feed :: nat where
  "line_feed = 0x0A"

definition plus_sign :: nat where
  "plus_sign = 0x2B"

text \<open>
  \<open>re_match_here db items at_start s\<close>: the items match a prefix of the rest \<open>s\<close> of
  the text; \<open>at_start\<close> says that nothing has been consumed yet. \<open>Digits m n\<close> is
  \<^verbatim>\<open>\d{m,n}\<close>.
\<close>

fun re_match_here :: "unicode_db \<Rightarrow> re_item list \<Rightarrow> bool \<Rightarrow> pystr \<Rightarrow> bool" where
  "re_match_here db [] b s = True"
| "re_match_here db (Bol # items) b s = (b \<and> re_match_here db items b s)"
| "re_match_here db (Eol # items) b s =
     ((s = [] \<or> s = [line_feed]) \<and> re_match_here db items b s)"
| "re_match_here db (Lit c # items) b [] = False"
| "re_match_here db (Lit c # items) b (x # xs) = (x = c \<and> re_match_here db items False xs)"
| "re_match_here db (Digits m 0 # items) b s = (m = 0 \<and> re_match_here db items b s)"
| "re_match_here db (Digits m (Suc n) # items) b [] = (m = 0 \<and> re_match_here db items b [])"
| "re_match_here db (Digits m (Suc n) # items) b (x # xs) =
     ((is_decimal db x \<and> re_match_here db (Digits (m - 1) n # items) False xs)
      \<or> (m = 0 \<and> re_match_here db items b (x # xs)))"

definition pattern :: "re_item list" where
  "pattern = [Bol, Lit plus_sign, Digits 1 3, Digits 10 10, Eol]"

definition validate_whatsapp :: "unicode_db \<Rightarrow> pystr \<Rightarrow> bool" where
  "validate_whatsapp db number = re_match_here db pattern True number"

text \<open>
  The shape of a contact number in words: a leading \<^verbatim>\<open>+\<close>, then between 11 and 13
  decimal digits (a country code of one to three digits and a number of ten), and nothing
  else.
\<close>

definition plus_then_digits :: "unicode_db \<Rightarrow> pystr \<Rightarrow> bool" where
  "plus_then_digits db s =
     (case s of
        [] \<Rightarrow> False
      | c # ds \<Rightarrow>
          c = plus_sign \<and> list_all (is_decimal db) ds \<and> 11 \<le> length ds \<and> length ds \<le> 13)"

section \<open>Access gate\<close>

text \<open>
  The configured pair \<^verbatim>\<open>ADMIN_USERNAME\<close> and \<^verbatim>\<open>ADMIN_PASSWORD\<close> comes from the
  secrets of the deployment, and what the user typed and clicked from the page.
\<close>

record secrets =
  admin_username :: pystr
  admin_password :: pystr

record login_form =
  username :: pystr
  password :: pystr
  login_button :: bool

text \<open>
  \<^verbatim>\<open>check_password\<close>. The session state is the entry \<^verbatim>\<open>password_correct\<close>, \<open>None\<close>
  when the key is missing. The digest
  \<^verbatim>\<open>hashlib.sha256(password.encode()).hexdigest()\<close> is the library's: it is the
  parameter \<open>sha256_hexdigest\<close>. The result is the returned value, the new session
  entry and whether the error message was shown.
\<close>

definition check_password ::
  "unicode_db \<Rightarrow> (pystr \<Rightarrow> pystr) \<Rightarrow> secrets \<Rightarrow> bool option \<Rightarrow> login_form
     \<Rightarrow> bool \<times> bool option \<times> bool" where
  "check_password db sha256_hexdigest sec session inp =
     (let password_correct = (case session of None \<Rightarrow> False | Some b \<Rightarrow> b) in
      if password_correct then (True, Some password_correct, False)
      else if login_button inp then
        (if lower db (username inp) = admin_username sec
            \<and> sha256_hexdigest (password inp) = admin_password sec
         then (True, Some True, False)
         else (False, Some password_correct, True))
      else (False, Some password_correct, False))"

text \<open>
  Two texts differ only in letter case when they have the same length and, position by
  position, the characters are equal or one is the lower-case mapping of the other.
\<close>

definition case_variant :: "unicode_db \<Rightarrow> nat \<Rightarrow> nat \<Rightarrow> bool" where
  "case_variant db c d = (c = d \<or> to_lower_full db c = [d] \<or> to_lower_full db d = [c])"

definition differ_only_in_case :: "unicode_db \<Rightarrow> pystr \<Rightarrow> pystr \<Rightarrow> bool" where
  "differ_only_in_case db u v = list_all2 (case_variant db) u v"

text \<open>
  The ASCII part: a text of code points below 128, the lower-case mapping of the letters A
  to Z, and a database that has this mapping on the code points below 128.
\<close>

definition ascii_text :: "pystr \<Rightarrow> bool" where
  "ascii_text s = list_all (\<lambda>c. c < 128) s"

definition lower_ascii :: "nat \<Rightarrow> nat" where
  "lower_ascii c = (if 65 \<le> c \<and> c \<le> 90 then c + 32 else c)"

definition basic_latin :: "unicode_db \<Rightarrow> bool" where
  "basic_latin db = list_all (\<lambda>c. to_lower_full db c = [lower_ascii c]) [0..<128]"

section \<open>Example data\<close>

definition online :: env where
  "online =
     \<lparr>current_timestamp = 100, datetime_now = ''2024-01-01 00:01:40'', collected = False,
      build_service = None, values_get = Inr [], values_append = None,
      values_update = None, values_clear = None\<rparr>"

definition empty_db :: state where
  "empty_db = \<lparr>projects = [], sqlite_sequence = 0, write_lock = False, sheet = []\<rparr>"

definition seeded :: state where
  "seeded = snd (init_db online empty_db)"

definition offline :: env where
  "offline = online\<lparr>build_service := Some ''transport error''\<rparr>"

definition append_fails :: env where
  "append_fails = online\<lparr>values_append := Some ''HttpError 503''\<rparr>"

definition demo :: project_data where
  "demo =
     \<lparr>project_name = ''Demo'', one_liner = ''A demo'', description = ''Shows the tracker'',
      ai_usage = ''None yet'', lead_name = ''Ada'', whatsapp_contact = ''+2347012345678'',
      status = ''MVP''\<rparr>"

definition clear_fails :: env where
  "clear_fails = online\<lparr>values_get := Inr [[''Sample Project'', ''This is a sample project'']],
                          values_clear := Some ''HttpError 503''\<rparr>"

definition get_fails :: env where
  "get_fails = online\<lparr>values_get := Inl ''timed out''\<rparr>"

definition later :: env where
  "later = online\<lparr>current_timestamp := 160, datetime_now := ''2024-01-01 00:02:40''\<rparr>"

definition two_rows :: state where
  "two_rows = snd (add_project later seeded demo)"

definition edited :: project_data where
  "edited =
     \<lparr>project_name = ''Demo'', one_liner = ''A better demo'',
      description = ''Shows the tracker and the mirror'', ai_usage = ''Summaries'',
      lead_name = ''Grace'', whatsapp_contact = ''+4915112345678'', status = ''Launch''\<rparr>"

definition rogue :: project_data where
  "rogue = demo\<lparr>status := ''Done''\<rparr>"

definition clock_set_back :: env where
  "clock_set_back = online\<lparr>current_timestamp := 40\<rparr>"

definition blanked :: env where
  "blanked = online\<lparr>values_get := Inr [[], [''Demo'', ''A demo'']]\<rparr>"

text \<open>The state that a rejected registration of the sample project leaves.\<close>

definition rejected :: state where
  "rejected = snd (add_project online seeded sample_project)"

definition demo_secrets :: secrets where
  "demo_secrets = \<lparr>admin_username = ascii ''admin'', admin_password = ascii ''5e884898''\<rparr>"

text \<open>
  A stand-in for the digest in the examples: it maps one password to the configured text.
\<close>

definition demo_digest :: "pystr \<Rightarrow> pystr" where
  "demo_digest pw = (if pw = ascii ''password'' then ascii ''5e884898'' else ascii ''00000000'')"

definition login_try :: login_form where
  "login_try = \<lparr>username = [], password = ascii ''password'', login_button = True\<rparr>"

text \<open>
  The Greek texts \<^verbatim>\<open>U+0391 U+03A3\<close> (capital alpha, capital sigma) and
  \<^verbatim>\<open>U+03B1 U+03C3\<close> (small alpha, small sigma), and secrets whose user name is the
  second.
\<close>

definition alpha_sigma_capital :: pystr where
  "alpha_sigma_capital = [0x391, 0x3A3]"

definition alpha_sigma_small :: pystr where
  "alpha_sigma_small = [0x3B1, 0x3C3]"

definition greek_secrets :: secrets where
  "greek_secrets = \<lparr>admin_username = alpha_sigma_small, admin_password = ascii ''5e884898''\<rparr>"

text \<open>Thirteen Arabic-Indic digits after a plus sign.\<close>

definition arabic_indic_number :: pystr where
  "arabic_indic_number =
     [0x2B, 0x662, 0x663, 0x664, 0x667, 0x660, 0x661, 0x662, 0x663, 0x664, 0x665, 0x666,
      0x667, 0x668]"

section \<open>Registering\<close>

lemma insert_project_locked:
  "locked e st \<Longrightarrow> insert_project e st p = Inl (OperationalError, st)"
  by (simp add: insert_project_def)

lemma insert_project_duplicate:
  "\<not> locked e st \<Longrightarrow> project_name p \<in> set (names st)
     \<Longrightarrow> insert_project e st p = Inl (IntegrityError, st\<lparr>write_lock := True\<rparr>)"
  by (simp add: insert_project_def)

lemma insert_project_fresh:
  "\<not> locked e st \<Longrightarrow> project_name p \<notin> set (names st)
     \<Longrightarrow> insert_project e st p =
         Inr (st\<lparr>projects := projects st @
                      [new_row (Suc (sqlite_sequence st)) (current_timestamp e) p],
                  sqlite_sequence := Suc (sqlite_sequence st), write_lock := False\<rparr>)"
  by (simp add: insert_project_def)

lemma add_project_locked:
  "locked e st \<Longrightarrow> add_project e st p = ((False, ''Error: database is locked''), st)"
  by (simp add: add_project_def add_project_body_def insert_project_locked)

lemma add_project_duplicate:
  "\<not> locked e st \<Longrightarrow> project_name p \<in> set (names st)
     \<Longrightarrow> add_project e st p =
         ((False, ''Project name already exists!''), st\<lparr>write_lock := True\<rparr>)"
  by (simp add: add_project_def add_project_body_def insert_project_duplicate)

lemma add_project_fresh:
  "\<not> locked e st \<Longrightarrow> project_name p \<notin> set (names st) \<Longrightarrow>
     add_project e st p =
       (let st1 = st\<lparr>projects := projects st @
                        [new_row (Suc (sqlite_sequence st)) (current_timestamp e) p],
                      sqlite_sequence := Suc (sqlite_sequence st), write_lock := False\<rparr>;
            r = sync_to_sheets e (sheet st) p False
        in ((True, if fst (fst r) then ''Project successfully registered and synced to Google Sheets!''
                   else ''Project registered in database, but '' @ snd (fst r)),
            st1\<lparr>sheet := snd r\<rparr>))"
  by (simp add: add_project_def add_project_body_def insert_project_fresh Let_def
      split: prod.splits)

lemma add_project_projects_rejected:
  "locked e st \<or> project_name p \<in> set (names st)
     \<Longrightarrow> projects (snd (add_project e st p)) = projects st
       \<and> sheet (snd (add_project e st p)) = sheet st"
  by (cases "locked e st") (auto simp: add_project_locked add_project_duplicate)

lemma filter_name_distinct:
  "distinct (map project_name rs) \<Longrightarrow> n \<in> set (map project_name rs)
     \<Longrightarrow> length (filter (\<lambda>r. project_name r = n) rs) = 1"
proof (induction rs)
  case Nil
  then show ?case by simp
next
  case (Cons r rs)
  show ?case
  proof (cases "project_name r = n")
    case True
    with Cons.prems have "\<forall>x\<in>set rs. project_name x \<noteq> n"
      by (auto simp: image_iff)
    then have "filter (\<lambda>r. project_name r = n) rs = []"
      by (simp add: filter_empty_conv)
    with True show ?thesis by simp
  next
    case False
    with Cons show ?thesis by auto
  qed
qed

lemma seeded_eq:
  "seeded = \<lparr>projects = [new_row 1 100 sample_project], sqlite_sequence = 1,
             write_lock = False, sheet = []\<rparr>"
  by (simp add: seeded_def init_db_def insert_project_def locked_def names_def empty_db_def
      online_def)

lemma names_seeded: "names seeded = [''Sample Project'']"
  by (simp add: seeded_eq names_def new_row_def sample_project_def)

lemma not_locked_seeded: "\<not> locked e seeded"
  by (simp add: locked_def seeded_eq)

lemma rejected_eq: "rejected = seeded\<lparr>write_lock := True\<rparr>"
  unfolding rejected_def
  by (simp add: add_project_duplicate not_locked_seeded names_seeded sample_project_def)

lemma locked_rejected: "locked online rejected"
  by (simp add: locked_def rejected_eq online_def)

text \<open>
  A name that is in the table is rejected with the duplicate-name message, the table and
  the spreadsheet stay as they were, and one row has that name, as long as no connection
  holds the write lock.
\<close>

lemma add_project_duplicate_unlocked:
  assumes "project_name p \<in> set (names st)" and "distinct (names st)"
    and "\<not> locked e st"
  shows "fst (add_project e st p) = (False, ''Project name already exists!'')
    \<and> sheet (snd (add_project e st p)) = sheet st
    \<and> projects (snd (add_project e st p)) = projects st
    \<and> length (filter (\<lambda>r. project_name r = project_name p)
           (projects (snd (add_project e st p)))) = 1
    \<and> write_lock (snd (add_project e st p))"
proof -
  have "length (filter (\<lambda>r. project_name r = project_name p) (projects st)) = 1"
    using assms(1,2) filter_name_distinct [of "projects st" "project_name p"]
    by (simp add: names_def)
  then show ?thesis
    using assms(1,3) by (simp add: add_project_duplicate)
qed

text \<open>
  C1 fails on the code. The rejected \<^verbatim>\<open>INSERT\<close> leaves its connection open with the
  write lock: the first registration of a name that exists gets the duplicate-name
  message, and the same registration repeated before the connection is finalized gets
  \<^verbatim>\<open>Error: database is locked\<close>. The table and the spreadsheet stay as they were.
\<close>

theorem add_project_duplicate_then_locked:
  "add_project online seeded sample_project =
     ((False, ''Project name already exists!''), rejected)
   \<and> write_lock rejected
   \<and> add_project online rejected sample_project =
       ((False, ''Error: database is locked''), rejected)
   \<and> projects rejected = projects seeded
   \<and> sheet rejected = sheet seeded"
proof -
  have "add_project online seeded sample_project =
      ((False, ''Project name already exists!''), seeded\<lparr>write_lock := True\<rparr>)"
    by (simp add: add_project_duplicate not_locked_seeded names_seeded sample_project_def)
  moreover have "add_project online rejected sample_project =
      ((False, ''Error: database is locked''), rejected)"
    using locked_rejected by (rule add_project_locked)
  ultimately show ?thesis by (simp add: rejected_eq)
qed

section \<open>Mirror failures on registration\<close>

lemma sync_append_unreachable:
  "build_service e \<noteq> None \<Longrightarrow>
     sync_to_sheets e log p False = ((False, ''Failed to connect to Google Sheets''), log)"
  by (simp add: sync_to_sheets_def sync_body_def init_google_sheets_def)

lemma sync_append_raises:
  "build_service e = None \<Longrightarrow> values_append e = Some err \<Longrightarrow>
     sync_to_sheets e log p False = ((False, ''Error syncing to Google Sheets: '' @ err), log)"
  by (simp add: sync_to_sheets_def sync_body_def init_google_sheets_def)

lemma sublist_connect: "sublist ''Google Sheets'' ''Failed to connect to Google Sheets''"
proof -
  have "''Failed to connect to Google Sheets'' = ''Failed to connect to '' @ ''Google Sheets'' @ []"
    by simp
  then show ?thesis unfolding sublist_def by blast
qed

lemma sublist_syncing: "sublist ''Google Sheets'' (''Error syncing to Google Sheets: '' @ err)"
proof -
  have "''Error syncing to Google Sheets: '' @ err = ''Error syncing to '' @ ''Google Sheets'' @ ('': '' @ err)"
    by simp
  then show ?thesis unfolding sublist_def by blast
qed

lemma sublist_prepend: "sublist xs ys \<Longrightarrow> sublist xs (ps @ ys)"
proof -
  assume "sublist xs ys"
  then obtain qs ss where "ys = qs @ xs @ ss" unfolding sublist_def by blast
  then have "ps @ ys = (ps @ qs) @ xs @ ss" by simp
  then show ?thesis unfolding sublist_def by blast
qed

lemma sync_append_failure:
  assumes "build_service e \<noteq> None \<or> values_append e \<noteq> None"
  obtains m where "sync_to_sheets e log p False = ((False, m), log)"
    and "sublist ''Google Sheets'' m"
proof (cases "build_service e")
  case None
  with assms obtain err where "values_append e = Some err" by auto
  with None have "sync_to_sheets e log p False =
      ((False, ''Error syncing to Google Sheets: '' @ err), log)"
    by (rule sync_append_raises)
  then show ?thesis using sublist_syncing by (rule that)
next
  case (Some err)
  then have "sync_to_sheets e log p False = ((False, ''Failed to connect to Google Sheets''), log)"
    by (intro sync_append_unreachable) simp
  then show ?thesis using sublist_connect by (rule that)
qed

text \<open>
  C2: when the insert succeeds (the name is new and no connection holds the write lock)
  and the append to the spreadsheet fails (the service cannot be built, or the append
  request raises), \<^verbatim>\<open>add_project\<close> returns success, the new row is in the table, and
  the message is the database part followed by the failure message of
  \<^verbatim>\<open>sync_to_sheets\<close>, which names Google Sheets.
\<close>

theorem add_project_mirror_failure:
  assumes "project_name p \<notin> set (names st)"
    and "\<not> locked e st"
    and "build_service e \<noteq> None \<or> values_append e \<noteq> None"
  shows "fst (fst (add_project e st p)) = True
    \<and> projects (snd (add_project e st p)) =
        projects st @ [new_row (Suc (sqlite_sequence st)) (current_timestamp e) p]
    \<and> fst (fst (sync_to_sheets e (sheet st) p False)) = False
    \<and> snd (fst (add_project e st p)) =
        ''Project registered in database, but '' @ snd (fst (sync_to_sheets e (sheet st) p False))
    \<and> sublist ''Google Sheets'' (snd (fst (add_project e st p)))
    \<and> sheet (snd (add_project e st p)) = sheet st"
proof -
  from assms(3) obtain m
    where r: "sync_to_sheets e (sheet st) p False = ((False, m), sheet st)"
      and m: "sublist ''Google Sheets'' m"
    by (rule sync_append_failure)
  from m have "sublist ''Google Sheets'' (''Project registered in database, but '' @ m)"
    by (rule sublist_prepend)
  with r show ?thesis
    using assms(1,2) by (simp add: add_project_fresh Let_def del: append.simps)
qed

theorem add_project_mirror_failure_witness:
  "project_name demo \<notin> set (names seeded)
   \<and> write_lock seeded = False
   \<and> values_append append_fails = Some ''HttpError 503''
   \<and> add_project append_fails seeded demo =
       ((True, ''Project registered in database, but Error syncing to Google Sheets: HttpError 503''),
        seeded\<lparr>projects := projects seeded @ [new_row 2 100 demo], sqlite_sequence := 2\<rparr>)
   \<and> sublist ''Google Sheets'' (snd (fst (add_project append_fails seeded demo)))"
proof -
  have a: "project_name demo \<notin> set (names seeded)"
    by (simp add: names_seeded demo_def)
  have l: "\<not> locked append_fails seeded"
    by (rule not_locked_seeded)
  have l': "write_lock seeded = False"
    by (simp add: seeded_eq)
  have b: "values_append append_fails = Some ''HttpError 503''"
    by (simp add: append_fails_def)
  then have b': "build_service append_fails \<noteq> None \<or> values_append append_fails \<noteq> None"
    by simp
  have c: "add_project append_fails seeded demo =
       ((True, ''Project registered in database, but Error syncing to Google Sheets: HttpError 503''),
        seeded\<lparr>projects := projects seeded @ [new_row 2 100 demo], sqlite_sequence := 2\<rparr>)"
    using a l by (simp add: add_project_fresh Let_def sync_append_raises append_fails_def online_def
        seeded_eq numeral_2_eq_2)
  from a l' b c add_project_mirror_failure [OF a l b'] show ?thesis by blast
qed

section \<open>Deleting\<close>

lemma delete_project_locked:
  "locked e st \<Longrightarrow>
     delete_project e st n = ((False, ''Error deleting project: database is locked''), st)"
  by (simp add: delete_project_def delete_project_body_def delete_rows_def)

lemma delete_project_projects:
  "projects (snd (delete_project e st n)) =
     (if locked e st then projects st else filter (\<lambda>r. project_name r \<noteq> n) (projects st))"
  by (simp add: delete_project_def delete_project_body_def delete_rows_def
      split: option.splits sum.splits)

lemma delete_project_sequence:
  "sqlite_sequence (snd (delete_project e st n)) = sqlite_sequence st"
  by (simp add: delete_project_def delete_project_body_def delete_rows_def
      split: option.splits sum.splits)

lemma delete_project_unreachable:
  "\<not> locked e st \<Longrightarrow> build_service e \<noteq> None \<Longrightarrow>
     delete_project e st n =
       ((False, ''Project deleted from database but failed to connect to Google Sheets''),
        st\<lparr>projects := filter (\<lambda>r. project_name r \<noteq> n) (projects st), write_lock := False\<rparr>)"
  by (simp add: delete_project_def delete_project_body_def delete_rows_def
      init_google_sheets_def)

lemma find_row_get_raises: "values_get e = Inl err \<Longrightarrow> find_row_in_sheets e n = None"
  by (simp add: find_row_in_sheets_def find_row_body_def)

lemma delete_project_not_found:
  "\<not> locked e st \<Longrightarrow> build_service e = None \<Longrightarrow> find_row_in_sheets e n = None \<Longrightarrow>
     delete_project e st n =
       ((True, ''Project deleted from database''),
        st\<lparr>projects := filter (\<lambda>r. project_name r \<noteq> n) (projects st), write_lock := False\<rparr>)"
  by (simp add: delete_project_def delete_project_body_def delete_rows_def
      init_google_sheets_def)

lemma delete_project_clear_raises:
  "\<not> locked e st \<Longrightarrow> build_service e = None \<Longrightarrow> find_row_in_sheets e n = Some k
     \<Longrightarrow> values_clear e = Some err \<Longrightarrow>
     delete_project e st n =
       ((False, ''Error deleting project: '' @ err),
        st\<lparr>projects := filter (\<lambda>r. project_name r \<noteq> n) (projects st), write_lock := False\<rparr>)"
  by (simp add: delete_project_def delete_project_body_def delete_rows_def
      init_google_sheets_def)

lemma delete_project_cleared:
  "\<not> locked e st \<Longrightarrow> build_service e = None \<Longrightarrow> find_row_in_sheets e n = Some k
     \<Longrightarrow> values_clear e = None \<Longrightarrow>
     delete_project e st n =
       ((True, ''Project successfully deleted from database and Google Sheets''),
        st\<lparr>projects := filter (\<lambda>r. project_name r \<noteq> n) (projects st), write_lock := False,
            sheet := sheet st @ [Clear k]\<rparr>)"
  by (simp add: delete_project_def delete_project_body_def delete_rows_def
      init_google_sheets_def)

text \<open>
  Whatever the spreadsheet does, a delete that is not blocked by the write lock removes the
  rows of that name; when reading the sheet raises, it reports success.
\<close>

lemma delete_project_get_raises:
  "\<not> locked e st \<Longrightarrow> build_service e = None \<Longrightarrow> values_get e = Inl err \<Longrightarrow>
     fst (delete_project e st n) = (True, ''Project deleted from database'')"
  by (simp add: delete_project_not_found find_row_get_raises)

text \<open>
  C3 fails on the code. With the sample row in the table, \<^verbatim>\<open>delete_project\<close> deletes the
  row and returns the flag \<open>False\<close>, both when the service cannot be built and when the
  clear request raises; in the second case the message does not say that the row was
  deleted.
\<close>

theorem delete_project_mirror_failure_flag:
  "delete_project offline seeded ''Sample Project'' =
     ((False, ''Project deleted from database but failed to connect to Google Sheets''),
      seeded\<lparr>projects := []\<rparr>)
   \<and> delete_project clear_fails seeded ''Sample Project'' =
     ((False, ''Error deleting project: HttpError 503''), seeded\<lparr>projects := []\<rparr>)
   \<and> projects seeded = [new_row 1 100 sample_project]"
proof -
  have gone: "filter (\<lambda>r. project_name r \<noteq> ''Sample Project'') (projects seeded) = []"
    by (simp add: seeded_eq new_row_def sample_project_def)
  have "\<not> locked offline seeded" "build_service offline \<noteq> None"
    by (simp_all add: not_locked_seeded offline_def)
  then have "delete_project offline seeded ''Sample Project'' =
      ((False, ''Project deleted from database but failed to connect to Google Sheets''),
       seeded\<lparr>projects := filter (\<lambda>r. project_name r \<noteq> ''Sample Project'') (projects seeded),
               write_lock := False\<rparr>)"
    by (rule delete_project_unreachable)
  then have a: "delete_project offline seeded ''Sample Project'' =
     ((False, ''Project deleted from database but failed to connect to Google Sheets''),
      seeded\<lparr>projects := []\<rparr>)"
    using gone by (simp add: seeded_eq)
  have "build_service clear_fails = None"
    "find_row_in_sheets clear_fails ''Sample Project'' = Some 2"
    "values_clear clear_fails = Some ''HttpError 503''"
    by (simp_all add: clear_fails_def online_def find_row_in_sheets_def find_row_body_def)
  with not_locked_seeded have "delete_project clear_fails seeded ''Sample Project'' =
      ((False, ''Error deleting project: '' @ ''HttpError 503''),
       seeded\<lparr>projects := filter (\<lambda>r. project_name r \<noteq> ''Sample Project'') (projects seeded),
               write_lock := False\<rparr>)"
    by (rule delete_project_clear_raises)
  then have b: "delete_project clear_fails seeded ''Sample Project'' =
     ((False, ''Error deleting project: HttpError 503''), seeded\<lparr>projects := []\<rparr>)"
    using gone by (simp add: seeded_eq)
  from a b show ?thesis by (simp add: seeded_eq)
qed

section \<open>Names that are not in the store\<close>

lemma update_project_locked:
  "locked e st \<Longrightarrow> update_project e st p = ((False, ''Error: database is locked''), st)"
  by (simp add: update_project_def update_project_body_def update_rows_def)

lemma update_project_result:
  "\<not> locked e st \<Longrightarrow>
   update_project e st p =
     (let r = sync_to_sheets e (sheet st) p True
      in ((True, if fst (fst r) then ''Project successfully updated and synced to Google Sheets!''
                 else ''Project updated in database, but '' @ snd (fst r)),
          st\<lparr>projects := map (set_fields (current_timestamp e) p) (projects st),
              write_lock := False, sheet := snd r\<rparr>))"
  by (simp add: update_project_def update_project_body_def update_rows_def Let_def
      split: prod.splits)

lemma update_project_projects:
  "projects (snd (update_project e st p)) =
     (if locked e st then projects st
      else map (set_fields (current_timestamp e) p) (projects st))"
  by (simp add: update_project_result update_project_locked Let_def)

lemma update_project_sequence:
  "sqlite_sequence (snd (update_project e st p)) = sqlite_sequence st"
  by (cases "locked e st") (simp_all add: update_project_result update_project_locked Let_def)

lemma set_fields_absent:
  "project_name p \<notin> project_name ` set rs \<Longrightarrow> map (set_fields now p) rs = rs"
  by (induction rs) (auto simp: set_fields_def)

lemma filter_absent:
  "n \<notin> project_name ` set rs \<Longrightarrow> filter (\<lambda>r. project_name r \<noteq> n) rs = rs"
  by (induction rs) auto

lemma get_all_projects_cong:
  "projects st' = projects st \<Longrightarrow> get_all_projects st' = get_all_projects st"
  by (simp add: get_all_projects_def)

text \<open>What the two operations report does not depend on the rows of the table.\<close>

lemma sync_message_log:
  "fst (sync_to_sheets e log p u) = fst (sync_to_sheets e log' p u)"
  by (simp add: sync_to_sheets_def sync_body_def split: option.splits)

lemma update_project_report:
  "fst (update_project e (st\<lparr>projects := rs\<rparr>) p) = fst (update_project e st p)"
proof (cases "locked e st")
  case True
  then have "locked e (st\<lparr>projects := rs\<rparr>)" by (simp add: locked_def)
  with True show ?thesis by (simp add: update_project_locked)
next
  case False
  then have "\<not> locked e (st\<lparr>projects := rs\<rparr>)" by (simp add: locked_def)
  with False show ?thesis by (simp add: update_project_result Let_def)
qed

lemma delete_project_report:
  "fst (delete_project e (st\<lparr>projects := rs\<rparr>) n) = fst (delete_project e st n)"
  by (simp add: delete_project_def delete_project_body_def delete_rows_def locked_def
      split: option.splits)

text \<open>
  C5: for a name that is not in the table, \<^verbatim>\<open>update_project\<close> and \<^verbatim>\<open>delete_project\<close>
  return a result (no exception leaves them), and the table and so the result of
  \<^verbatim>\<open>get_all_projects\<close> are as before. The missing name is no error: the
  \<^verbatim>\<open>UPDATE\<close> and the \<^verbatim>\<open>DELETE\<close> raise nothing unless the database is locked, what
  the two operations report is what they report when the row is there, and it is success
  for \<^verbatim>\<open>update_project\<close> when the database is not locked, and for \<^verbatim>\<open>delete_project\<close>
  when moreover the spreadsheet is reached.
\<close>

theorem absent_name_update_delete:
  assumes "n \<notin> set (names st)" and "project_name p = n"
  shows "projects (snd (update_project e st p)) = projects st
    \<and> sqlite_sequence (snd (update_project e st p)) = sqlite_sequence st
    \<and> get_all_projects (snd (update_project e st p)) = get_all_projects st
    \<and> projects (snd (delete_project e st n)) = projects st
    \<and> sqlite_sequence (snd (delete_project e st n)) = sqlite_sequence st
    \<and> get_all_projects (snd (delete_project e st n)) = get_all_projects st
    \<and> fst (update_project e st p) = fst (update_project e (st\<lparr>projects := rs\<rparr>) p)
    \<and> fst (delete_project e st n) = fst (delete_project e (st\<lparr>projects := rs\<rparr>) n)
    \<and> (\<not> locked e st \<longrightarrow>
         update_rows e st p = Inr (st\<lparr>write_lock := False\<rparr>)
         \<and> delete_rows e st n = Inr (st\<lparr>write_lock := False\<rparr>)
         \<and> fst (fst (update_project e st p)) = True)
    \<and> (\<not> locked e st \<and> build_service e = None \<and> values_clear e = None \<longrightarrow>
         fst (fst (delete_project e st n)) = True)"
proof -
  from assms have absent: "project_name p \<notin> project_name ` set (projects st)"
    "n \<notin> project_name ` set (projects st)"
    by (simp_all add: names_def)
  have u: "projects (snd (update_project e st p)) = projects st"
    using absent(1) by (simp add: update_project_projects set_fields_absent)
  have d: "projects (snd (delete_project e st n)) = projects st"
    using absent(2) by (simp add: delete_project_projects filter_absent)
  have stmts: "update_rows e st p = Inr (st\<lparr>write_lock := False\<rparr>)
      \<and> delete_rows e st n = Inr (st\<lparr>write_lock := False\<rparr>)
      \<and> fst (fst (update_project e st p)) = True"
    if "\<not> locked e st"
    using that absent
    by (simp add: update_rows_def delete_rows_def set_fields_absent filter_absent
        update_project_result Let_def)
  have flag: "fst (fst (delete_project e st n)) = True"
    if "\<not> locked e st" "build_service e = None" "values_clear e = None"
  proof (cases "find_row_in_sheets e n")
    case None
    with that show ?thesis by (simp add: delete_project_not_found)
  next
    case (Some k)
    with that show ?thesis by (simp add: delete_project_cleared)
  qed
  note u d update_project_sequence [of e st p] delete_project_sequence [of e st n]
    get_all_projects_cong [OF u] get_all_projects_cong [OF d]
    update_project_report [where e = e and st = st and rs = rs and p = p, symmetric]
    delete_project_report [where e = e and st = st and rs = rs and n = n, symmetric]
  then show ?thesis using stmts flag by blast
qed

theorem absent_name_update_delete_witness:
  "''Nope'' \<notin> set (names seeded) \<and> project_name (demo\<lparr>project_name := ''Nope''\<rparr>) = ''Nope''
   \<and> write_lock seeded = False
   \<and> build_service online = None \<and> values_clear online = None
   \<and> get_all_projects (snd (update_project online seeded (demo\<lparr>project_name := ''Nope''\<rparr>)))
       = get_all_projects seeded
   \<and> fst (fst (update_project online seeded (demo\<lparr>project_name := ''Nope''\<rparr>))) = True
   \<and> get_all_projects (snd (delete_project online seeded ''Nope'')) = get_all_projects seeded
   \<and> fst (fst (delete_project online seeded ''Nope'')) = True
   \<and> get_all_projects (snd (delete_project online rejected ''Nope'')) = get_all_projects rejected"
proof -
  have a: "''Nope'' \<notin> set (names seeded)"
    by (simp add: names_seeded)
  have a': "''Nope'' \<notin> set (names rejected)"
    by (simp add: rejected_eq names_def seeded_eq new_row_def sample_project_def)
  have b: "project_name (demo\<lparr>project_name := ''Nope''\<rparr>) = ''Nope''"
    by simp
  have c: "build_service online = None" "values_clear online = None"
    by (simp_all add: online_def)
  have l: "\<not> locked online seeded"
    by (rule not_locked_seeded)
  have l': "write_lock seeded = False"
    by (simp add: seeded_eq)
  from a b c l l' absent_name_update_delete [OF a b, of online]
    absent_name_update_delete [OF a' b, of online]
  show ?thesis by blast
qed

section \<open>Listing\<close>

lemma get_all_projects_sorted:
  "sorted_wrt (\<lambda>a b. date_added b \<le> date_added a) (get_all_projects st)"
proof -
  have "sorted (map (\<lambda>r. - int (date_added r)) (get_all_projects st))"
    unfolding get_all_projects_def by (rule sorted_sort_key)
  then show ?thesis by (simp add: sorted_map)
qed

lemma get_all_projects_newest:
  assumes "r \<in> set (projects st)"
  shows "date_added r \<le> date_added (hd (get_all_projects st))"
proof -
  from assms have mem: "r \<in> set (get_all_projects st)"
    by (simp add: get_all_projects_def)
  then obtain x xs where xs: "get_all_projects st = x # xs"
    by (cases "get_all_projects st") auto
  with get_all_projects_sorted [of st] have "\<forall>y\<in>set xs. date_added y \<le> date_added x"
    by simp
  with mem xs show ?thesis by auto
qed

text \<open>
  C8: \<^verbatim>\<open>get_all_projects\<close> returns every row of the table, each as often as the
  table holds it and none dropped, ordered by \<^verbatim>\<open>date_added\<close> descending: the first
  row returned is a newest one.
\<close>

theorem get_all_projects_all_rows_newest_first:
  "mset (get_all_projects st) = mset (projects st)
   \<and> length (get_all_projects st) = length (projects st)
   \<and> sorted_wrt (\<lambda>a b. date_added b \<le> date_added a) (get_all_projects st)
   \<and> (\<forall>r\<in>set (projects st). date_added r \<le> date_added (hd (get_all_projects st)))"
  using get_all_projects_sorted [of st] get_all_projects_newest [of _ st]
  by (simp add: get_all_projects_def)

lemma two_rows_eq:
  "two_rows = \<lparr>projects = [new_row 1 100 sample_project, new_row 2 160 demo],
               sqlite_sequence = 2, write_lock = False,
               sheet = [Append (sheet_values later demo False)]\<rparr>"
proof -
  have fresh: "project_name demo \<notin> set (names seeded)"
    by (simp add: names_seeded demo_def)
  have sync: "sync_to_sheets later [] demo False =
      ((True, ''Successfully added to Google Sheets''), [Append (sheet_values later demo False)])"
    by (simp add: sync_to_sheets_def sync_body_def init_google_sheets_def later_def online_def)
  have "sheet seeded = []" "projects seeded = [new_row 1 100 sample_project]"
    "sqlite_sequence seeded = 1" "current_timestamp later = 160"
    by (simp_all add: seeded_eq later_def)
  then show ?thesis
    unfolding two_rows_def add_project_fresh [OF not_locked_seeded fresh]
    by (simp add: Let_def sync seeded_eq numeral_2_eq_2)
qed

lemma not_locked_two_rows: "\<not> locked e two_rows"
  by (simp add: locked_def two_rows_eq)

theorem get_all_projects_all_rows_newest_first_witness:
  "get_all_projects two_rows = [new_row 2 160 demo, new_row 1 100 sample_project]
   \<and> mset (get_all_projects two_rows) = mset (projects two_rows)
   \<and> length (get_all_projects two_rows) = length (projects two_rows)
   \<and> sorted_wrt (\<lambda>a b. date_added b \<le> date_added a) (get_all_projects two_rows)"
proof -
  have "get_all_projects two_rows = [new_row 2 160 demo, new_row 1 100 sample_project]"
    by (simp add: get_all_projects_def two_rows_eq new_row_def)
  with get_all_projects_all_rows_newest_first [of two_rows] show ?thesis by blast
qed

section \<open>Editing and reading back\<close>

lemma set_fields_name [simp]: "project_name (set_fields now p r) = project_name r"
  by (simp add: set_fields_def)

lemma set_fields_id [simp]: "row_id (set_fields now p r) = row_id r"
  by (simp add: set_fields_def)

lemma set_fields_date_added [simp]: "date_added (set_fields now p r) = date_added r"
  by (simp add: set_fields_def)

lemma filter_set_fields:
  "filter (\<lambda>r. project_name r = n) (map (set_fields now p) rs) =
     map (set_fields now p) (filter (\<lambda>r. project_name r = n) rs)"
  by (induction rs) simp_all

lemma filter_name_single:
  "distinct (map project_name rs) \<Longrightarrow> r0 \<in> set rs
     \<Longrightarrow> filter (\<lambda>r. project_name r = project_name r0) rs = [r0]"
proof (induction rs)
  case Nil
  then show ?case by simp
next
  case (Cons r rs)
  show ?case
  proof (cases "r = r0")
    case True
    from Cons.prems have "\<forall>x\<in>set rs. project_name x \<noteq> project_name r"
      by (auto simp: image_iff)
    then have "filter (\<lambda>x. project_name x = project_name r) rs = []"
      by (simp add: filter_empty_conv)
    with True show ?thesis by simp
  next
    case False
    with Cons.prems have mem: "r0 \<in> set rs" by simp
    with Cons.prems have "project_name r \<noteq> project_name r0"
      by (auto simp: image_iff)
    with Cons mem show ?thesis by simp
  qed
qed

lemma read_back_updated:
  assumes "r0 \<in> set (projects st)" and "distinct (names st)" and "\<not> locked e st"
  shows "filter (\<lambda>r. project_name r = project_name r0) (get_all_projects (snd (update_project e st p)))
    = [set_fields (current_timestamp e) p r0]"
proof -
  have "filter (\<lambda>r. project_name r = project_name r0) (projects st) = [r0]"
    using assms(1,2) by (simp add: filter_name_single names_def)
  then show ?thesis
    using assms(3)
    by (simp add: get_all_projects_def update_project_projects filter_sort filter_set_fields)
qed

text \<open>
  C6, as stated, fails: a project registered and edited within the same second of the
  clock is read back with \<^verbatim>\<open>last_updated\<close> equal to \<^verbatim>\<open>date_added\<close>, not greater.
\<close>

theorem update_same_second_counterexample:
  "two_rows = snd (add_project later seeded demo)
   \<and> fst (fst (update_project later two_rows edited)) = True
   \<and> project_name (hd (get_all_projects (snd (update_project later two_rows edited)))) = ''Demo''
   \<and> one_liner (hd (get_all_projects (snd (update_project later two_rows edited)))) = ''A better demo''
   \<and> date_added (hd (get_all_projects (snd (update_project later two_rows edited)))) = 160
   \<and> last_updated (hd (get_all_projects (snd (update_project later two_rows edited)))) = 160
   \<and> \<not> date_added (hd (get_all_projects (snd (update_project later two_rows edited))))
        < last_updated (hd (get_all_projects (snd (update_project later two_rows edited))))"
proof -
  have "projects (snd (update_project later two_rows edited)) =
      map (set_fields 160 edited) (projects two_rows)"
    by (simp add: update_project_projects not_locked_two_rows later_def)
  then have "get_all_projects (snd (update_project later two_rows edited)) =
      [set_fields 160 edited (new_row 2 160 demo), new_row 1 100 sample_project]"
    by (simp add: get_all_projects_def two_rows_eq
        set_fields_def new_row_def sample_project_def demo_def edited_def)
  moreover have "fst (fst (update_project later two_rows edited)) = True"
    by (simp add: update_project_result not_locked_two_rows Let_def)
  ultimately show ?thesis
    by (simp add: two_rows_def set_fields_def new_row_def demo_def edited_def)
qed

text \<open>
  C6, amended: after an \<^verbatim>\<open>update_project\<close> on a row of the table that is not blocked
  by the write lock of a connection left open, reading the store back gives one row of
  that name; it has the key and \<^verbatim>\<open>date_added\<close> of the old row, the six submitted
  values, and \<^verbatim>\<open>last_updated\<close> is the clock reading of the update. So \<^verbatim>\<open>last_updated\<close>
  is greater than \<^verbatim>\<open>date_added\<close> exactly when the update's clock reading, in whole
  seconds, is later than the creation's.
\<close>

theorem update_project_round_trip:
  assumes "r0 \<in> set (projects st)" and "distinct (names st)"
    and "project_name p = project_name r0"
    and "\<not> locked e st"
  shows "fst (fst (update_project e st p)) = True
    \<and> (\<exists>r. filter (\<lambda>r. project_name r = project_name p)
             (get_all_projects (snd (update_project e st p))) = [r]
      \<and> project_name r = project_name r0 \<and> row_id r = row_id r0 \<and> date_added r = date_added r0
      \<and> one_liner r = one_liner p \<and> description r = description p \<and> ai_usage r = ai_usage p
      \<and> lead_name r = lead_name p \<and> whatsapp_contact r = whatsapp_contact p
      \<and> status r = status p \<and> last_updated r = current_timestamp e
      \<and> (date_added r < last_updated r \<longleftrightarrow> date_added r0 < current_timestamp e)
      \<and> (date_added r \<le> last_updated r \<longleftrightarrow> date_added r0 \<le> current_timestamp e))"
proof -
  let ?r = "set_fields (current_timestamp e) p r0"
  have "filter (\<lambda>r. project_name r = project_name p)
      (get_all_projects (snd (update_project e st p))) = [?r]"
    using read_back_updated [OF assms(1,2,4)] assms(3) by simp
  moreover have "one_liner ?r = one_liner p \<and> description ?r = description p
      \<and> ai_usage ?r = ai_usage p \<and> lead_name ?r = lead_name p
      \<and> whatsapp_contact ?r = whatsapp_contact p \<and> status ?r = status p
      \<and> last_updated ?r = current_timestamp e"
    using assms(3) by (simp add: set_fields_def)
  moreover have "fst (fst (update_project e st p)) = True"
    using assms(4) by (simp add: update_project_result Let_def)
  ultimately show ?thesis by (intro conjI exI [of _ ?r]) simp_all
qed

theorem update_project_round_trip_witness:
  "new_row 2 160 demo \<in> set (projects two_rows) \<and> distinct (names two_rows)
   \<and> project_name edited = project_name (new_row 2 160 demo)
   \<and> write_lock two_rows = False
   \<and> (\<exists>r. filter (\<lambda>r. project_name r = project_name edited)
             (get_all_projects (snd (update_project (later\<lparr>current_timestamp := 200\<rparr>) two_rows edited))) = [r]
        \<and> one_liner r = one_liner edited \<and> status r = status edited
        \<and> last_updated r = 200 \<and> date_added r = 160 \<and> date_added r < last_updated r)"
proof -
  have a: "new_row 2 160 demo \<in> set (projects two_rows)"
    by (simp add: two_rows_eq)
  have b: "distinct (names two_rows)"
    by (simp add: two_rows_eq names_def new_row_def sample_project_def demo_def)
  have c: "project_name edited = project_name (new_row 2 160 demo)"
    by (simp add: new_row_def demo_def edited_def)
  have l: "\<not> locked (later\<lparr>current_timestamp := 200\<rparr>) two_rows"
    by (rule not_locked_two_rows)
  have l': "write_lock two_rows = False"
    by (simp add: two_rows_eq)
  have d: "date_added (new_row 2 160 demo) = 160"
    "current_timestamp (later\<lparr>current_timestamp := 200\<rparr>) = 200"
    by (simp_all add: new_row_def)
  from update_project_round_trip [OF a b c l]
  obtain r where "filter (\<lambda>r. project_name r = project_name edited)
             (get_all_projects (snd (update_project (later\<lparr>current_timestamp := 200\<rparr>) two_rows edited))) = [r]
        \<and> one_liner r = one_liner edited \<and> status r = status edited
        \<and> last_updated r = 200 \<and> date_added r = 160 \<and> date_added r < last_updated r"
    unfolding d by auto
  with a b c l' show ?thesis by blast
qed

section \<open>Invariants of the store\<close>

lemma invariant_rows: "projects st' = projects st \<Longrightarrow> invariant st' = invariant st"
  by (simp add: invariant_def names_def)

lemma invariant_seeded: "invariant seeded"
proof -
  have "distinct (names seeded)"
    by (simp add: names_seeded)
  moreover have "projects seeded = [new_row 1 100 sample_project]"
    by (simp add: seeded_eq)
  ultimately show ?thesis
    by (simp add: invariant_def status_listed_def stamps_ordered_def
        new_row_def sample_project_def PROJECT_STATUSES_def)
qed

lemma invariant_add_project:
  assumes "invariant st" and "status p \<in> set PROJECT_STATUSES"
  shows "invariant (snd (add_project e st p))"
proof (cases "locked e st \<or> project_name p \<in> set (names st)")
  case True
  then have "projects (snd (add_project e st p)) = projects st"
    using add_project_projects_rejected by blast
  with assms(1) invariant_rows show ?thesis by blast
next
  case False
  then have "projects (snd (add_project e st p)) =
      projects st @ [new_row (Suc (sqlite_sequence st)) (current_timestamp e) p]"
    by (simp add: add_project_fresh Let_def)
  with assms False show ?thesis
    by (simp add: invariant_def names_def status_listed_def stamps_ordered_def new_row_def)
qed

lemma update_project_names:
  "map project_name (projects (snd (update_project e st p))) = map project_name (projects st)"
  by (simp add: update_project_projects comp_def)

lemma invariant_update_project:
  assumes "invariant st" and "status p \<in> set PROJECT_STATUSES"
    and "\<forall>r\<in>set (projects st). project_name r = project_name p \<longrightarrow> date_added r \<le> current_timestamp e"
  shows "invariant (snd (update_project e st p))"
proof (cases "locked e st")
  case True
  then have "projects (snd (update_project e st p)) = projects st"
    by (simp add: update_project_projects)
  with assms(1) invariant_rows show ?thesis by blast
next
  case False
  have "status_listed (set_fields (current_timestamp e) p r)" if "status_listed r" for r
    using that assms(2) by (simp add: status_listed_def set_fields_def)
  moreover have "stamps_ordered (set_fields (current_timestamp e) p r)"
    if "stamps_ordered r" "r \<in> set (projects st)" for r
    using that assms(3) by (simp add: stamps_ordered_def set_fields_def)
  moreover have "names (snd (update_project e st p)) = names st"
    by (simp add: names_def update_project_names)
  ultimately show ?thesis
    using assms(1) False
    by (simp add: invariant_def update_project_projects list_all_iff)
qed

lemma invariant_delete_project:
  assumes "invariant st"
  shows "invariant (snd (delete_project e st n))"
  using assms
  by (simp add: invariant_def names_def delete_project_projects distinct_map_filter list_all_iff)

lemma invariant_init_db:
  assumes "invariant st"
  shows "invariant (snd (init_db e st))"
  using assms
  by (simp add: init_db_def insert_project_def invariant_def names_def status_listed_def
      stamps_ordered_def new_row_def sample_project_def PROJECT_STATUSES_def)

text \<open>
  C7, as stated, fails. The table has no check on \<^verbatim>\<open>status\<close>: \<^verbatim>\<open>add_project\<close> stores
  whatever text it is handed. And \<^verbatim>\<open>update_project\<close> writes the clock reading of the
  update into \<^verbatim>\<open>last_updated\<close>, which is below \<^verbatim>\<open>date_added\<close> when the clock was
  set back in between.
\<close>

theorem invariant_counterexample:
  "invariant seeded
   \<and> map status (projects (snd (add_project online seeded rogue))) = [''Idea'', ''Done'']
   \<and> \<not> invariant (snd (add_project online seeded rogue))
   \<and> invariant two_rows
   \<and> map date_added (projects (snd (update_project clock_set_back two_rows edited))) = [100, 160]
   \<and> map last_updated (projects (snd (update_project clock_set_back two_rows edited))) = [100, 40]
   \<and> \<not> invariant (snd (update_project clock_set_back two_rows edited))"
proof -
  have fresh: "project_name rogue \<notin> set (names seeded)"
    by (simp add: names_seeded rogue_def demo_def)
  have a: "projects (snd (add_project online seeded rogue)) =
      [new_row 1 100 sample_project, new_row 2 100 rogue]"
  proof -
    have "projects seeded = [new_row 1 100 sample_project]" "sqlite_sequence seeded = 1"
      "current_timestamp online = 100"
      by (simp_all add: seeded_eq online_def)
    then show ?thesis
      by (simp add: add_project_fresh [OF not_locked_seeded fresh] Let_def numeral_2_eq_2)
  qed
  have "projects (snd (update_project clock_set_back two_rows edited)) =
      map (set_fields 40 edited) (projects two_rows)"
    by (simp add: update_project_projects not_locked_two_rows clock_set_back_def)
  then have b: "projects (snd (update_project clock_set_back two_rows edited)) =
      [new_row 1 100 sample_project, set_fields 40 edited (new_row 2 160 demo)]"
    by (simp add: two_rows_eq set_fields_def new_row_def sample_project_def demo_def edited_def)
  have c: "invariant two_rows"
    by (simp add: invariant_def names_def two_rows_eq status_listed_def stamps_ordered_def
        new_row_def sample_project_def demo_def PROJECT_STATUSES_def)
  have d: "map status (projects (snd (add_project online seeded rogue))) = [''Idea'', ''Done'']"
    unfolding a by (simp add: new_row_def sample_project_def rogue_def)
  have e: "\<not> invariant (snd (add_project online seeded rogue))"
    unfolding invariant_def a
    by (simp add: status_listed_def new_row_def rogue_def PROJECT_STATUSES_def)
  have f: "map date_added (projects (snd (update_project clock_set_back two_rows edited))) = [100, 160]"
    "map last_updated (projects (snd (update_project clock_set_back two_rows edited))) = [100, 40]"
    unfolding b by (simp_all add: set_fields_def new_row_def demo_def edited_def)
  have g: "\<not> invariant (snd (update_project clock_set_back two_rows edited))"
    unfolding invariant_def b
    by (simp add: stamps_ordered_def set_fields_def new_row_def demo_def edited_def)
  from invariant_seeded c d e f g show ?thesis by blast
qed

text \<open>
  C7, amended: when the submitted status is one of the keys of \<^verbatim>\<open>PROJECT_STATUSES\<close>
  and the clock reading is not below the \<^verbatim>\<open>date_added\<close> of the row that is edited,
  \<^verbatim>\<open>init_db\<close>, \<^verbatim>\<open>add_project\<close>, \<^verbatim>\<open>update_project\<close> and \<^verbatim>\<open>delete_project\<close>
  keep the invariant: names are unique, every status is one of the three keys, and
  \<^verbatim>\<open>last_updated\<close> is at least \<^verbatim>\<open>date_added\<close>. \<^verbatim>\<open>update_project\<close> leaves the name,
  the key and \<^verbatim>\<open>date_added\<close> of every row as they were.
\<close>

theorem operations_preserve_invariant:
  assumes "invariant st" and "status p \<in> set PROJECT_STATUSES"
    and "\<forall>r\<in>set (projects st). project_name r = project_name p \<longrightarrow> date_added r \<le> current_timestamp e"
  shows "invariant (snd (init_db e st))
    \<and> invariant (snd (add_project e st p))
    \<and> invariant (snd (update_project e st p))
    \<and> invariant (snd (delete_project e st n))
    \<and> map project_name (projects (snd (update_project e st p))) = map project_name (projects st)
    \<and> map row_id (projects (snd (update_project e st p))) = map row_id (projects st)
    \<and> map date_added (projects (snd (update_project e st p))) = map date_added (projects st)"
proof -
  have "map row_id (projects (snd (update_project e st p))) = map row_id (projects st)"
    "map date_added (projects (snd (update_project e st p))) = map date_added (projects st)"
    by (simp_all add: update_project_projects comp_def)
  with invariant_init_db [OF assms(1)] invariant_add_project [OF assms(1,2)]
    invariant_update_project [OF assms] invariant_delete_project [OF assms(1)]
    update_project_names [of e st p]
  show ?thesis by blast
qed

theorem operations_preserve_invariant_witness:
  "invariant two_rows \<and> status edited \<in> set PROJECT_STATUSES
   \<and> map date_added (projects two_rows) = [100, 160]
   \<and> current_timestamp (later\<lparr>current_timestamp := 200\<rparr>) = 200
   \<and> invariant (snd (add_project (later\<lparr>current_timestamp := 200\<rparr>) two_rows edited))
   \<and> invariant (snd (update_project (later\<lparr>current_timestamp := 200\<rparr>) two_rows edited))
   \<and> invariant (snd (delete_project (later\<lparr>current_timestamp := 200\<rparr>) two_rows ''Demo''))
   \<and> map project_name (projects (snd (update_project (later\<lparr>current_timestamp := 200\<rparr>) two_rows edited)))
       = [''Sample Project'', ''Demo'']"
proof -
  have a: "invariant two_rows"
    by (simp add: invariant_def names_def two_rows_eq status_listed_def stamps_ordered_def
        new_row_def sample_project_def demo_def PROJECT_STATUSES_def)
  have b: "status edited \<in> set PROJECT_STATUSES"
    by (simp add: edited_def PROJECT_STATUSES_def)
  have c: "\<forall>r\<in>set (projects two_rows). project_name r = project_name edited
         \<longrightarrow> date_added r \<le> current_timestamp (later\<lparr>current_timestamp := 200\<rparr>)"
    by (simp add: two_rows_eq new_row_def)
  have d: "map project_name (projects two_rows) = [''Sample Project'', ''Demo'']"
    by (simp add: two_rows_eq new_row_def sample_project_def demo_def)
  have f: "map date_added (projects two_rows) = [100, 160]"
    "current_timestamp (later\<lparr>current_timestamp := 200\<rparr>) = 200"
    by (simp_all add: two_rows_eq new_row_def)
  from a b f operations_preserve_invariant [OF a b c, of "''Demo''"]
  show ?thesis unfolding d by blast
qed

section \<open>Locating a row of the mirror\<close>

lemma scan_rows_blank:
  assumes "[] \<in> set pre" and "list_all (first_cell_differs n) pre"
  shows "scan_rows idx (pre @ post) n = Inl IndexError"
  using assms
proof (induction pre arbitrary: idx)
  case Nil
  then show ?case by simp
next
  case (Cons r pre)
  show ?case
  proof (cases r)
    case Nil
    then show ?thesis by simp
  next
    case (Cons c cs)
    with Cons.prems have "[] \<in> set pre" "list_all (first_cell_differs n) pre" "c \<noteq> n"
      by simp_all
    with Cons.IH [of "Suc idx"] Cons show ?thesis by simp
  qed
qed

lemma scan_rows_no_blank:
  assumes "[] \<notin> set pre" and "list_all (first_cell_differs n) pre"
  shows "scan_rows idx (pre @ (n # cs) # post) n = Inr (Some (idx + length pre + 2))"
  using assms
proof (induction pre arbitrary: idx)
  case Nil
  then show ?case by simp
next
  case (Cons r pre)
  from Cons.prems obtain c ds where r: "r = c # ds" "c \<noteq> n"
    by (cases r) auto
  with Cons.prems Cons.IH [of "Suc idx"] show ?case by simp
qed

text \<open>
  C10: when the rows read from the sheet hold an empty row before the first row whose
  first cell is the project name, indexing the empty row raises \<^verbatim>\<open>IndexError\<close> inside
  \<^verbatim>\<open>find_row_in_sheets\<close>, the handler turns it into \<^verbatim>\<open>None\<close>, and so the update
  through \<^verbatim>\<open>sync_to_sheets\<close> reports that the project was not found and
  \<^verbatim>\<open>delete_project\<close> sends no clear request: a delete that the write lock does not
  block removes the rows of the name from the table and reports only that.
\<close>

theorem find_row_blank_row_hides_match:
  assumes "values_get e = Inr (pre @ (n # cs) # post)"
    and "[] \<in> set pre"
    and "list_all (first_cell_differs n) pre"
    and "build_service e = None"
    and "project_name p = n"
  shows "find_row_body e n = Inl IndexError
    \<and> find_row_in_sheets e n = None
    \<and> sync_to_sheets e log p True = ((False, ''Project not found in Google Sheets''), log)
    \<and> sheet (snd (delete_project e st n)) = sheet st
    \<and> (\<not> locked e st \<longrightarrow>
         delete_project e st n =
           ((True, ''Project deleted from database''),
            st\<lparr>projects := filter (\<lambda>r. project_name r \<noteq> n) (projects st),
                write_lock := False\<rparr>))"
proof -
  have body: "find_row_body e n = Inl IndexError"
    using assms(1-3) by (simp add: find_row_body_def scan_rows_blank)
  then have none: "find_row_in_sheets e n = None"
    by (simp add: find_row_in_sheets_def)
  have "sync_to_sheets e log p True = ((False, ''Project not found in Google Sheets''), log)"
    using none assms(4,5)
    by (simp add: sync_to_sheets_def sync_body_def init_google_sheets_def)
  moreover have del: "delete_project e st n =
      ((True, ''Project deleted from database''),
       st\<lparr>projects := filter (\<lambda>r. project_name r \<noteq> n) (projects st), write_lock := False\<rparr>)"
    if "\<not> locked e st"
    using that assms(4) none by (rule delete_project_not_found)
  moreover have "sheet (snd (delete_project e st n)) = sheet st"
    by (cases "locked e st") (simp_all add: del delete_project_locked)
  ultimately show ?thesis using body none by simp
qed

theorem find_row_blank_row_hides_match_witness:
  "values_get blanked = Inr ([[]] @ (''Demo'' # [''A demo'']) # [])
   \<and> [] \<in> set [[]::string list] \<and> list_all (first_cell_differs ''Demo'') [[]]
   \<and> build_service blanked = None \<and> project_name edited = ''Demo''
   \<and> write_lock two_rows = False
   \<and> find_row_body blanked ''Demo'' = Inl IndexError
   \<and> find_row_in_sheets blanked ''Demo'' = None
   \<and> sync_to_sheets blanked [] edited True = ((False, ''Project not found in Google Sheets''), [])
   \<and> delete_project blanked two_rows ''Demo'' =
       ((True, ''Project deleted from database''),
        two_rows\<lparr>projects := filter (\<lambda>r. project_name r \<noteq> ''Demo'') (projects two_rows),
                 write_lock := False\<rparr>)
   \<and> find_row_in_sheets (online\<lparr>values_get := Inr [[''Demo'', ''A demo'']]\<rparr>) ''Demo'' = Some 2"
proof -
  have a: "values_get blanked = Inr ([[]] @ (''Demo'' # [''A demo'']) # [])"
    by (simp add: blanked_def)
  have b: "[] \<in> set [[]::string list]"
    by simp
  have c: "list_all (first_cell_differs ''Demo'') [[]]"
    by simp
  have d: "build_service blanked = None"
    by (simp add: blanked_def online_def)
  have f: "project_name edited = ''Demo''"
    by (simp add: edited_def)
  have g: "find_row_in_sheets (online\<lparr>values_get := Inr [[''Demo'', ''A demo'']]\<rparr>) ''Demo'' = Some 2"
    by (simp add: find_row_in_sheets_def find_row_body_def)
  have l: "\<not> locked blanked two_rows"
    by (rule not_locked_two_rows)
  have l': "write_lock two_rows = False"
    by (simp add: two_rows_eq)
  from a b c d f g l l' find_row_blank_row_hides_match [OF a b c d f, of "[]" two_rows]
  show ?thesis by blast
qed

section \<open>Contact numbers\<close>

lemma digits_repeat:
  "re_match_here db (Digits m n # items) b s \<longleftrightarrow>
     (\<exists>k. m \<le> k \<and> k \<le> n \<and> k \<le> length s \<and> list_all (is_decimal db) (take k s)
          \<and> re_match_here db items (b \<and> k = 0) (drop k s))"
proof (induction n arbitrary: m b s)
  case 0
  then show ?case by auto
next
  case (Suc n)
  show ?case
  proof (cases s)
    case Nil
    then show ?thesis by auto
  next
    case (Cons x xs)
    have "re_match_here db (Digits m (Suc n) # items) b (x # xs) \<longleftrightarrow>
        (is_decimal db x \<and> (\<exists>k. m - 1 \<le> k \<and> k \<le> n \<and> k \<le> length xs
            \<and> list_all (is_decimal db) (take k xs)
            \<and> re_match_here db items False (drop k xs)))
        \<or> (m = 0 \<and> re_match_here db items b (x # xs))"
      by (simp add: Suc.IH)
    also have "\<dots> \<longleftrightarrow> (\<exists>k. m \<le> k \<and> k \<le> Suc n \<and> k \<le> length (x # xs)
          \<and> list_all (is_decimal db) (take k (x # xs))
          \<and> re_match_here db items (b \<and> k = 0) (drop k (x # xs)))"
      (is "?L \<longleftrightarrow> ?R")
    proof
      assume ?L
      then show ?R
      proof
        assume "is_decimal db x \<and> (\<exists>k. m - 1 \<le> k \<and> k \<le> n \<and> k \<le> length xs
            \<and> list_all (is_decimal db) (take k xs)
            \<and> re_match_here db items False (drop k xs))"
        then obtain k where "is_decimal db x" "m - 1 \<le> k" "k \<le> n" "k \<le> length xs"
          "list_all (is_decimal db) (take k xs)" "re_match_here db items False (drop k xs)"
          by blast
        then show ?R by (intro exI [of _ "Suc k"]) auto
      next
        assume "m = 0 \<and> re_match_here db items b (x # xs)"
        then show ?R by (intro exI [of _ 0]) auto
      qed
    next
      assume ?R
      then obtain k where k: "m \<le> k" "k \<le> Suc n" "k \<le> length (x # xs)"
        "list_all (is_decimal db) (take k (x # xs))"
        "re_match_here db items (b \<and> k = 0) (drop k (x # xs))"
        by blast
      show ?L
      proof (cases k)
        case 0
        with k show ?thesis by simp
      next
        case (Suc j)
        with k have "is_decimal db x" "m - 1 \<le> j" "j \<le> n" "j \<le> length xs"
          "list_all (is_decimal db) (take j xs)" "re_match_here db items False (drop j xs)"
          by auto
        then show ?thesis by blast
      qed
    qed
    finally show ?thesis using Cons by simp
  qed
qed

lemma end_of_text: "re_match_here db [Eol] b t \<longleftrightarrow> t = [] \<or> t = [line_feed]"
  by simp

lemma digits_then_end:
  "re_match_here db [Digits 1 3, Digits 10 10, Eol] False xs \<longleftrightarrow>
     (\<exists>ds. (xs = ds \<or> xs = ds @ [line_feed]) \<and> list_all (is_decimal db) ds
           \<and> 11 \<le> length ds \<and> length ds \<le> 13)"
  (is "?L \<longleftrightarrow> ?R")
proof
  assume ?L
  then obtain k where k: "1 \<le> k" "k \<le> 3" "k \<le> length xs" "list_all (is_decimal db) (take k xs)"
    and rest: "re_match_here db [Digits 10 10, Eol] False (drop k xs)"
    unfolding digits_repeat [of db 1 3] by auto
  from rest obtain j where j: "10 \<le> j" "j \<le> 10" "j \<le> length (drop k xs)"
    "list_all (is_decimal db) (take j (drop k xs))"
    and tail: "re_match_here db [Eol] False (drop j (drop k xs))"
    unfolding digits_repeat [of db 10 10] by auto
  from j have j10: "j = 10" by simp
  let ?ds = "take (k + 10) xs"
  have "?ds = take k xs @ take 10 (drop k xs)"
    by (simp add: take_add)
  with k j j10 have digits: "list_all (is_decimal db) ?ds" by simp
  from k j j10 have len: "length ?ds = k + 10" by simp
  from tail j10 have "drop (k + 10) xs = [] \<or> drop (k + 10) xs = [line_feed]"
    by (simp add: add.commute)
  moreover have "xs = ?ds @ drop (k + 10) xs" by simp
  ultimately have "xs = ?ds \<or> xs = ?ds @ [line_feed]"
    by (metis append_Nil2)
  with digits len k show ?R
    by (intro exI [of _ ?ds]) simp
next
  assume ?R
  then obtain ds where ds: "xs = ds \<or> xs = ds @ [line_feed]" "list_all (is_decimal db) ds"
    "11 \<le> length ds" "length ds \<le> 13"
    by blast
  define k where "k = length ds - 10"
  from ds have k: "1 \<le> k" "k \<le> 3" "length ds = k + 10"
    by (simp_all add: k_def)
  from ds(2) have every: "\<forall>c\<in>set ds. is_decimal db c"
    by (simp add: list_all_iff)
  then have front: "list_all (is_decimal db) (take k ds)"
    and rear: "list_all (is_decimal db) (drop k ds)"
    by (auto simp: list_all_iff dest: in_set_takeD in_set_dropD)
  have lenrear: "length (drop k ds) = 10"
    using k by simp
  from ds(1) have "re_match_here db [Digits 10 10, Eol] False (drop k xs)
      \<and> k \<le> length xs \<and> list_all (is_decimal db) (take k xs)"
  proof
    assume xs: "xs = ds"
    have "re_match_here db [Digits 10 10, Eol] False (drop k ds)"
      unfolding digits_repeat [of db 10 10]
      using rear lenrear by (intro exI [of _ 10]) simp
    with xs front k show ?thesis by simp
  next
    assume xs: "xs = ds @ [line_feed]"
    have "re_match_here db [Digits 10 10, Eol] False (drop k ds @ [line_feed])"
      unfolding digits_repeat [of db 10 10]
      using rear lenrear by (intro exI [of _ 10]) simp
    with xs front k show ?thesis by simp
  qed
  with k show ?L
    unfolding digits_repeat [of db 1 3] by (intro exI [of _ k]) simp
qed

text \<open>
  What \<^verbatim>\<open>validate_whatsapp\<close> accepts: a plus sign and 11 to 13 decimal digits, or such
  a text followed by one line feed.
\<close>

lemma validate_whatsapp_iff:
  "validate_whatsapp db s \<longleftrightarrow>
     plus_then_digits db s \<or> (\<exists>t. s = t @ [line_feed] \<and> plus_then_digits db t)"
proof (cases s)
  case Nil
  then show ?thesis
    by (simp add: validate_whatsapp_def pattern_def plus_then_digits_def)
next
  case (Cons c xs)
  have "validate_whatsapp db s \<longleftrightarrow>
      c = plus_sign \<and> re_match_here db [Digits 1 3, Digits 10 10, Eol] False xs"
    using Cons by (simp add: validate_whatsapp_def pattern_def del: re_match_here.simps(6-8))
  also have "\<dots> \<longleftrightarrow> c = plus_sign \<and>
      (\<exists>ds. (xs = ds \<or> xs = ds @ [line_feed]) \<and> list_all (is_decimal db) ds
           \<and> 11 \<le> length ds \<and> length ds \<le> 13)"
    by (simp only: digits_then_end)
  also have "\<dots> \<longleftrightarrow> plus_then_digits db (c # xs)
      \<or> (\<exists>t. c # xs = t @ [line_feed] \<and> plus_then_digits db t)"
    (is "?A \<longleftrightarrow> ?B")
  proof
    assume ?A
    then obtain ds where c: "c = plus_sign" and ds: "xs = ds \<or> xs = ds @ [line_feed]"
      "list_all (is_decimal db) ds" "11 \<le> length ds" "length ds \<le> 13"
      by blast
    from ds(1) show ?B
    proof
      assume "xs = ds"
      with c ds show ?B by (simp add: plus_then_digits_def)
    next
      assume "xs = ds @ [line_feed]"
      with c ds have "c # xs = (c # ds) @ [line_feed] \<and> plus_then_digits db (c # ds)"
        by (simp add: plus_then_digits_def)
      then show ?B by blast
    qed
  next
    assume ?B
    then show ?A
    proof
      assume "plus_then_digits db (c # xs)"
      then show ?A by (auto simp: plus_then_digits_def)
    next
      assume "\<exists>t. c # xs = t @ [line_feed] \<and> plus_then_digits db t"
      then obtain t where t: "c # xs = t @ [line_feed]" "plus_then_digits db t" by blast
      from t(2) obtain ds where "t = plus_sign # ds" "list_all (is_decimal db) ds"
        "11 \<le> length ds" "length ds \<le> 13"
        by (cases t) (auto simp: plus_then_digits_def)
      with t(1) show ?A by auto
    qed
  qed
  finally show ?thesis using Cons by simp
qed

text \<open>
  C4, amended: for a text that does not end in a line feed, \<^verbatim>\<open>validate_whatsapp\<close> holds
  exactly when the text is a \<^verbatim>\<open>+\<close> followed by 11 to 13 decimal digits of the Unicode
  database and nothing else, whatever the database is. (A text that ends in a line feed is
  covered by \<open>validate_whatsapp_iff\<close>.)
\<close>

theorem validate_whatsapp_plus_digits:
  assumes "s = [] \<or> last s \<noteq> line_feed"
  shows "validate_whatsapp db s = plus_then_digits db s"
proof -
  have "\<not> (\<exists>t. s = t @ [line_feed] \<and> plus_then_digits db t)"
    using assms by auto
  then show ?thesis unfolding validate_whatsapp_iff by blast
qed

lemma is_decimal_excerpt:
  "is_decimal excerpt c = list_ex (\<lambda>z. z \<le> c \<and> c < z + 10) decimal_zeros"
  by (simp add: excerpt_def)

lemma plus_then_digits_thirteen: "plus_then_digits excerpt (ascii ''+2347012345678'')"
  by (simp add: plus_then_digits_def ascii_def plus_sign_def is_decimal_excerpt
      decimal_zeros_def)

lemma plus_then_digits_twelve: "plus_then_digits excerpt (ascii ''+234701234567'')"
  by (simp add: plus_then_digits_def ascii_def plus_sign_def is_decimal_excerpt
      decimal_zeros_def)

lemma plus_then_digits_arabic_indic: "plus_then_digits excerpt arabic_indic_number"
  by (simp add: plus_then_digits_def arabic_indic_number_def plus_sign_def is_decimal_excerpt
      decimal_zeros_def)

text \<open>Digits of another script, and a line feed at the end, are accepted.\<close>

lemma validate_whatsapp_arabic_indic: "validate_whatsapp excerpt arabic_indic_number"
  using plus_then_digits_arabic_indic by (simp add: validate_whatsapp_iff)

lemma validate_whatsapp_trailing_line_feed:
  "validate_whatsapp excerpt (ascii ''+2347012345678'' @ [line_feed])"
  using plus_then_digits_thirteen unfolding validate_whatsapp_iff by blast

text \<open>
  C4, as stated, fails: the claim takes \<^verbatim>\<open>+234701234567\<close> for rejected, reading 234 as
  the country code; the pattern accepts its twelve digits as a code of two digits and a
  number of ten.
\<close>

theorem validate_whatsapp_twelve_digits_counterexample:
  "validate_whatsapp excerpt (ascii ''+234701234567'') = True"
  using plus_then_digits_twelve by (simp add: validate_whatsapp_iff)

theorem validate_whatsapp_plus_digits_witness:
  "last (ascii ''+2347012345678'') = 56
   \<and> last (ascii ''2347012345678'') = 56
   \<and> last (ascii ''+2347012345'') = 53
   \<and> last arabic_indic_number = 0x668
   \<and> validate_whatsapp excerpt (ascii ''+2347012345678'')
   \<and> validate_whatsapp excerpt arabic_indic_number
   \<and> \<not> validate_whatsapp excerpt (ascii ''2347012345678'')
   \<and> \<not> validate_whatsapp excerpt (ascii ''+2347012345'')"
proof -
  have l: "last (ascii ''+2347012345678'') = 56" "last (ascii ''2347012345678'') = 56"
    "last (ascii ''+2347012345'') = 53" "last arabic_indic_number = 0x668"
    by (simp_all add: ascii_def arabic_indic_number_def)
  then have a: "ascii ''+2347012345678'' = [] \<or> last (ascii ''+2347012345678'') \<noteq> line_feed"
    and b: "ascii ''2347012345678'' = [] \<or> last (ascii ''2347012345678'') \<noteq> line_feed"
    and c: "ascii ''+2347012345'' = [] \<or> last (ascii ''+2347012345'') \<noteq> line_feed"
    and h: "arabic_indic_number = [] \<or> last arabic_indic_number \<noteq> line_feed"
    by (simp_all add: line_feed_def)
  have f: "\<not> plus_then_digits excerpt (ascii ''2347012345678'')"
    by (simp add: plus_then_digits_def ascii_def plus_sign_def)
  have g: "\<not> plus_then_digits excerpt (ascii ''+2347012345'')"
    by (simp add: plus_then_digits_def ascii_def plus_sign_def)
  from l plus_then_digits_thirteen plus_then_digits_arabic_indic f g
    validate_whatsapp_plus_digits [OF a, of excerpt]
    validate_whatsapp_plus_digits [OF b, of excerpt]
    validate_whatsapp_plus_digits [OF c, of excerpt]
    validate_whatsapp_plus_digits [OF h, of excerpt]
  show ?thesis by blast
qed

section \<open>Access gate: the comparison\<close>

lemma check_password_returns:
  "fst (check_password db H sec session inp) \<longleftrightarrow>
     session = Some True \<or>
     (login_button inp \<and> lower db (username inp) = admin_username sec
        \<and> H (password inp) = admin_password sec)"
  by (cases session) (auto simp: check_password_def Let_def)

lemma check_password_same_lower:
  "lower db u = lower db v \<Longrightarrow>
     check_password db H sec session (inp\<lparr>username := u\<rparr>)
       = check_password db H sec session (inp\<lparr>username := v\<rparr>)"
  by (simp add: check_password_def Let_def)

text \<open>On ASCII texts \<^verbatim>\<open>str.lower\<close> moves the letters A to Z and nothing else.\<close>

lemma basic_latin_lower:
  "basic_latin db \<Longrightarrow> c < 128 \<Longrightarrow> to_lower_full db c = [lower_ascii c]"
  by (simp add: basic_latin_def list_all_iff)

lemma lower_from_ascii:
  assumes "basic_latin db" and "ascii_text s"
  shows "lower_from db before s = map lower_ascii s"
  using assms(2)
proof (induction s arbitrary: before)
  case Nil
  then show ?case by simp
next
  case (Cons c s)
  then have "c < 128" "ascii_text s"
    by (simp_all add: ascii_text_def)
  with Cons.IH [of "c # before"] assms(1) show ?case
    by (simp add: basic_latin_lower)
qed

lemma lower_ascii_idem: "lower_ascii (lower_ascii c) = lower_ascii c"
  by (simp add: lower_ascii_def)

lemma case_variant_ascii:
  assumes "basic_latin db" and "c < 128" and "d < 128" and "case_variant db c d"
  shows "lower_ascii c = lower_ascii d"
proof -
  from assms(4) consider "c = d" | "to_lower_full db c = [d]" | "to_lower_full db d = [c]"
    unfolding case_variant_def by blast
  then show ?thesis
  proof cases
    case 1
    then show ?thesis by simp
  next
    case 2
    with assms(1,2) have "d = lower_ascii c" by (simp add: basic_latin_lower)
    then show ?thesis by (simp add: lower_ascii_idem)
  next
    case 3
    with assms(1,3) have "c = lower_ascii d" by (simp add: basic_latin_lower)
    then show ?thesis by (simp add: lower_ascii_idem)
  qed
qed

lemma differ_only_in_case_ascii:
  assumes "basic_latin db" and "differ_only_in_case db u v"
    and "ascii_text u" and "ascii_text v"
  shows "map lower_ascii u = map lower_ascii v"
  using assms(2-4) unfolding differ_only_in_case_def
proof (induction u v rule: list_all2_induct)
  case Nil
  then show ?case by simp
next
  case (Cons c u d v)
  then have "c < 128" "d < 128" "ascii_text u" "ascii_text v"
    by (simp_all add: ascii_text_def)
  with Cons assms(1) show ?case
    by (simp add: case_variant_ascii)
qed

lemma basic_latin_excerpt: "basic_latin excerpt"
  by (auto simp: basic_latin_def list_all_iff excerpt_def excerpt_upper_def in_range_def
      lower_ascii_def)

lemma lower_Admin: "lower excerpt (ascii ''Admin'') = ascii ''admin''"
proof -
  have "ascii_text (ascii ''Admin'')"
    by (simp add: ascii_text_def ascii_def)
  with basic_latin_excerpt have "lower excerpt (ascii ''Admin'') = map lower_ascii (ascii ''Admin'')"
    unfolding lower_def by (rule lower_from_ascii)
  then show ?thesis by (simp add: ascii_def lower_ascii_def)
qed

text \<open>
  The capital sigma after a cased letter and at the end of the text becomes the final
  sigma, which is not the small sigma.
\<close>

lemma lower_alpha_sigma_capital: "lower excerpt alpha_sigma_capital = [0x3B1, 0x3C2]"
  by (simp add: lower_def alpha_sigma_capital_def final_sigma_def excerpt_def excerpt_upper_def
      excerpt_cased_def excerpt_case_ignorable_def in_range_def)

lemma lower_alpha_sigma_small: "lower excerpt alpha_sigma_small = alpha_sigma_small"
  by (simp add: lower_def alpha_sigma_small_def excerpt_def excerpt_upper_def in_range_def)

lemma differ_only_in_case_alpha_sigma:
  "differ_only_in_case excerpt alpha_sigma_capital alpha_sigma_small"
  by (simp add: differ_only_in_case_def case_variant_def alpha_sigma_capital_def
      alpha_sigma_small_def excerpt_def excerpt_upper_def in_range_def)

text \<open>
  C9, as stated, fails: with the small letters alpha and sigma as the configured user
  name, that user name submitted in capitals is refused and submitted in small letters
  passes, the password being the same and right.
\<close>

theorem check_password_final_sigma_counterexample:
  "differ_only_in_case excerpt alpha_sigma_capital alpha_sigma_small
   \<and> admin_username greek_secrets = alpha_sigma_small
   \<and> demo_digest (password login_try) = admin_password greek_secrets
   \<and> lower excerpt alpha_sigma_capital = [0x3B1, 0x3C2]
   \<and> fst (check_password excerpt demo_digest greek_secrets None
        (login_try\<lparr>username := alpha_sigma_small\<rparr>)) = True
   \<and> fst (check_password excerpt demo_digest greek_secrets None
        (login_try\<lparr>username := alpha_sigma_capital\<rparr>)) = False"
proof -
  have a: "admin_username greek_secrets = alpha_sigma_small"
    "demo_digest (password login_try) = admin_password greek_secrets"
    "login_button login_try"
    by (simp_all add: greek_secrets_def demo_digest_def login_try_def)
  have b: "[0x3B1, 0x3C2] \<noteq> alpha_sigma_small"
    by (simp add: alpha_sigma_small_def)
  have "fst (check_password excerpt demo_digest greek_secrets None
        (login_try\<lparr>username := alpha_sigma_small\<rparr>)) = True"
    using a by (simp add: check_password_returns lower_alpha_sigma_small)
  moreover have "fst (check_password excerpt demo_digest greek_secrets None
        (login_try\<lparr>username := alpha_sigma_capital\<rparr>)) = False"
    using a b by (simp add: check_password_returns lower_alpha_sigma_capital)
  ultimately show ?thesis
    using a differ_only_in_case_alpha_sigma lower_alpha_sigma_capital by blast
qed

text \<open>
  C9, amended: \<^verbatim>\<open>check_password\<close> returns \<open>True\<close> exactly when the session is already
  authenticated, or the login button was pressed, \<^verbatim>\<open>username.lower()\<close> is the
  configured user name and the digest of the password is the configured one. Two
  submitted user names with the same lower-case form get the same result, the rest being
  the same. For ASCII user names that differ only in letter case this is so: on them
  \<^verbatim>\<open>str.lower\<close> moves the letters A to Z and nothing else.
\<close>

theorem check_password_lowercased:
  "(fst (check_password db H sec session inp) \<longleftrightarrow>
      session = Some True \<or>
      (login_button inp \<and> lower db (username inp) = admin_username sec
         \<and> H (password inp) = admin_password sec))
   \<and> (lower db u = lower db v \<longrightarrow>
        check_password db H sec session (inp\<lparr>username := u\<rparr>)
          = check_password db H sec session (inp\<lparr>username := v\<rparr>))
   \<and> (basic_latin db \<and> ascii_text u \<and> ascii_text v \<and> differ_only_in_case db u v \<longrightarrow>
        lower db u = map lower_ascii u \<and> lower db v = map lower_ascii v
        \<and> lower db u = lower db v
        \<and> check_password db H sec session (inp\<lparr>username := u\<rparr>)
          = check_password db H sec session (inp\<lparr>username := v\<rparr>))"
proof (intro conjI impI)
  show "fst (check_password db H sec session inp) \<longleftrightarrow>
      session = Some True \<or>
      (login_button inp \<and> lower db (username inp) = admin_username sec
         \<and> H (password inp) = admin_password sec)"
    by (rule check_password_returns)
next
  assume "lower db u = lower db v"
  then show "check_password db H sec session (inp\<lparr>username := u\<rparr>)
          = check_password db H sec session (inp\<lparr>username := v\<rparr>)"
    by (rule check_password_same_lower)
next
  assume a: "basic_latin db \<and> ascii_text u \<and> ascii_text v \<and> differ_only_in_case db u v"
  then have u: "lower db u = map lower_ascii u" and v: "lower db v = map lower_ascii v"
    unfolding lower_def by (simp_all add: lower_from_ascii)
  from a have "map lower_ascii u = map lower_ascii v"
    by (intro differ_only_in_case_ascii [of db]) simp_all
  with u v have uv: "lower db u = lower db v" by simp
  from u show "lower db u = map lower_ascii u" .
  from v show "lower db v = map lower_ascii v" .
  from uv show "lower db u = lower db v" .
  from uv show "check_password db H sec session (inp\<lparr>username := u\<rparr>)
          = check_password db H sec session (inp\<lparr>username := v\<rparr>)"
    by (rule check_password_same_lower)
qed

theorem check_password_lowercased_witness:
  "basic_latin excerpt \<and> ascii_text (ascii ''Admin'') \<and> ascii_text (ascii ''ADMIN'')
   \<and> differ_only_in_case excerpt (ascii ''Admin'') (ascii ''ADMIN'')
   \<and> lower excerpt (ascii ''Admin'') = ascii ''admin''
   \<and> lower excerpt (ascii ''ADMIN'') = ascii ''admin''
   \<and> check_password excerpt demo_digest demo_secrets None (login_try\<lparr>username := ascii ''Admin''\<rparr>)
     = check_password excerpt demo_digest demo_secrets None (login_try\<lparr>username := ascii ''ADMIN''\<rparr>)
   \<and> fst (check_password excerpt demo_digest demo_secrets None
        (login_try\<lparr>username := ascii ''Admin''\<rparr>))"
proof -
  have a: "ascii_text (ascii ''Admin'')" "ascii_text (ascii ''ADMIN'')"
    by (simp_all add: ascii_text_def ascii_def)
  have b: "differ_only_in_case excerpt (ascii ''Admin'') (ascii ''ADMIN'')"
    by (simp add: differ_only_in_case_def case_variant_def ascii_def excerpt_def
        excerpt_upper_def in_range_def)
  have c: "map lower_ascii (ascii ''Admin'') = ascii ''admin''"
    "map lower_ascii (ascii ''ADMIN'') = ascii ''admin''"
    by (simp_all add: ascii_def lower_ascii_def)
  have d: "admin_username demo_secrets = ascii ''admin''"
    "demo_digest (password (login_try\<lparr>username := ascii ''Admin''\<rparr>)) = admin_password demo_secrets"
    "login_button (login_try\<lparr>username := ascii ''Admin''\<rparr>)"
    "username (login_try\<lparr>username := ascii ''Admin''\<rparr>) = ascii ''Admin''"
    by (simp_all add: demo_secrets_def demo_digest_def login_try_def)
  from basic_latin_excerpt a b
    check_password_lowercased [of excerpt demo_digest demo_secrets None login_try
      "ascii ''Admin''" "ascii ''ADMIN''"]
  have e: "lower excerpt (ascii ''Admin'') = ascii ''admin''"
    "lower excerpt (ascii ''ADMIN'') = ascii ''admin''"
    "check_password excerpt demo_digest demo_secrets None (login_try\<lparr>username := ascii ''Admin''\<rparr>)
     = check_password excerpt demo_digest demo_secrets None (login_try\<lparr>username := ascii ''ADMIN''\<rparr>)"
    unfolding c by blast+
  from check_password_lowercased [of excerpt demo_digest demo_secrets None
      "login_try\<lparr>username := ascii ''Admin''\<rparr>"] d e(1)
  have "fst (check_password excerpt demo_digest demo_secrets None
        (login_try\<lparr>username := ascii ''Admin''\<rparr>))"
    by simp
  with basic_latin_excerpt a b e show ?thesis by blast
qed

end
